theory Spec2Isabelle
  imports Complex_Main "HOL-Library.Multiset"
begin

section \<open>The taxonomy: scored, nested hobbies\<close>

text \<open>
  \<^verbatim>\<open>interface Hobby { name: string; items?: Hobby[]; score: number; }\<close>

  The optional field \<open>items\<close> is an \<open>option\<close>: \<open>None\<close> is the absent field, \<open>Some []\<close> the
  empty array (which JavaScript treats as truthy, so the two are told apart by the code).
  Scores are the finite numbers of the data file; they are only ever subtracted and compared
  with zero by the sort comparator, and are taken as integers here.
\<close>

datatype Hobby = Hobby (name: string) (items: "Hobby list option") (score: int)

section \<open>Array.prototype.sort with a comparator\<close>

text \<open>
  The built-in \<open>sort\<close> orders an array by a comparator \<open>cmp\<close>: a positive \<open>cmp a b\<close>
  places \<open>a\<close> after \<open>b\<close>, and the sort is stable (ECMAScript 2019). It is written here as an
  insertion sort that walks the array from its end: an element is put in front of the first
  element it does not have to follow.
\<close>

fun insert_cmp :: "('a \<Rightarrow> 'a \<Rightarrow> int) \<Rightarrow> 'a \<Rightarrow> 'a list \<Rightarrow> 'a list" where
  "insert_cmp cmp x [] = [x]"
| "insert_cmp cmp x (y # ys) =
     (if cmp x y \<le> 0 then x # y # ys else y # insert_cmp cmp x ys)"

definition array_sort :: "('a \<Rightarrow> 'a \<Rightarrow> int) \<Rightarrow> 'a list \<Rightarrow> 'a list" where
  "array_sort cmp xs = foldr (insert_cmp cmp) xs []"

section \<open>sortByScore\<close>

text \<open>The comparator \<^verbatim>\<open>(a, b) => b.score - a.score\<close>.\<close>

definition byScore :: "Hobby \<Rightarrow> Hobby \<Rightarrow> int" where
  "byScore a b = score b - score a"

lemma set_insert_cmp: "set (insert_cmp cmp x ys) = insert x (set ys)"
  by (induction ys) auto

lemma set_array_sort [simp]: "set (array_sort cmp xs) = set xs"
  by (induction xs) (simp_all add: array_sort_def set_insert_cmp)

lemma size_items_less:
  "h \<in> set hs \<Longrightarrow> items h = Some cs \<Longrightarrow> size_list size cs < size_list size hs"
proof (induction hs)
  case Nil
  then show ?case by simp
next
  case (Cons a hs)
  show ?case
  proof (cases "h = a")
    case True
    with Cons.prems(2) show ?thesis by (cases a) simp
  next
    case False
    with Cons have "size_list size cs < size_list size hs" by simp
    then show ?thesis by simp
  qed
qed

text \<open>
  \<^verbatim>\<open>
  const sortByScore = (hobbies: Hobby[]): Hobby[] => {
    return [...hobbies]
      .sort((a, b) => b.score - a.score)
      .map((hobby) => ({
        ...hobby,
        items: hobby.items ? sortByScore(hobby.items) : undefined,
      }));
  };
  \<close>
\<close>

function sortByScore :: "Hobby list \<Rightarrow> Hobby list" where
  "sortByScore hobbies =
     map (\<lambda>hobby. Hobby (name hobby)
                     (case items hobby of None \<Rightarrow> None | Some its \<Rightarrow> Some (sortByScore its))
                     (score hobby))
         (array_sort byScore hobbies)"
  by pat_completeness auto
termination
  by (relation "measure (size_list size)") (auto simp: size_items_less)


text \<open>The callback handed to \<open>map\<close>: the hobby copied, its \<open>items\<close> sorted in turn.\<close>

definition sortNode :: "Hobby \<Rightarrow> Hobby" where
  "sortNode hobby =
     Hobby (name hobby)
       (case items hobby of None \<Rightarrow> None | Some its \<Rightarrow> Some (sortByScore its))
       (score hobby)"

text \<open>
  Every sibling list of a forest: the top level, then the \<open>items\<close> of every node at every
  depth. It is the notion of "level" that the ordering property speaks about.
\<close>

function levels :: "Hobby list \<Rightarrow> Hobby list list" where
  "levels hs =
     hs # concat (map (\<lambda>h. case items h of None \<Rightarrow> [] | Some cs \<Rightarrow> levels cs) hs)"
  by pat_completeness auto
termination
  by (relation "measure (size_list size)") (auto simp: size_items_less)

definition descending :: "Hobby list \<Rightarrow> bool" where
  "descending hs = sorted_wrt (\<lambda>a b. score b \<le> score a) hs"

text \<open>The forest of the specification's end-to-end scenario, and one with tied scores.\<close>

definition demo :: "Hobby list" where
  "demo =
     [Hobby ''Music'' (Some [Hobby ''Guitar'' None 5, Hobby ''Piano'' None 8]) 10,
      Hobby ''Sports'' None 7]"

definition tied :: "Hobby list" where
  "tied =
     [Hobby ''Chess'' None 3,
      Hobby ''Art'' (Some [Hobby ''Oil'' None 1, Hobby ''Ink'' None 1, Hobby ''Clay'' None 4]) 9,
      Hobby ''Go'' None 3,
      Hobby ''Yoga'' (Some []) 9]"

declare sortByScore.simps [simp del]
declare levels.simps [simp del]

subsection \<open>The sort is the library's stable sort on negated scores\<close>

lemma insert_cmp_byScore:
  "insert_cmp byScore x ys = insort_key (\<lambda>h. - score h) x ys"
  by (induction ys) (auto simp: byScore_def)

lemma array_sort_byScore:
  "array_sort byScore xs = sort_key (\<lambda>h. - score h) xs"
  by (induction xs) (simp_all add: array_sort_def sort_key_def insert_cmp_byScore)

lemma descending_array_sort: "descending (array_sort byScore xs)"
proof -
  have "sorted (map (\<lambda>h. - score h) (sort_key (\<lambda>h. - score h) xs))"
    by (rule sorted_sort_key)
  then show ?thesis
    by (simp add: descending_def array_sort_byScore sorted_map)
qed

lemma stable_array_sort:
  "filter (\<lambda>h. score h = k) (array_sort byScore xs) = filter (\<lambda>h. score h = k) xs"
proof -
  have "filter (\<lambda>h. - score h = - k) (sort_key (\<lambda>h. - score h) xs)
        = filter (\<lambda>h. - score h = - k) xs"
    by (rule sort_key_stable)
  then show ?thesis by (simp add: array_sort_byScore)
qed

lemma mset_array_sort: "mset (array_sort byScore xs) = mset xs"
  by (simp add: array_sort_byScore)

lemma sortByScore_map: "sortByScore hs = map sortNode (array_sort byScore hs)"
  unfolding sortNode_def by (subst sortByScore.simps) (rule refl)

lemma score_sortNode [simp]: "score (sortNode h) = score h"
  by (simp add: sortNode_def)

lemma name_sortNode [simp]: "name (sortNode h) = name h"
  by (simp add: sortNode_def)

lemma items_sortNode: "items (sortNode h) = map_option sortByScore (items h)"
  by (simp add: sortNode_def split: option.split)

lemma descending_sortByScore: "descending (sortByScore hs)"
  using descending_array_sort [of hs]
  by (simp add: sortByScore_map descending_def sorted_wrt_map)

lemma stable_sortByScore:
  "filter (\<lambda>h. score h = k) (sortByScore hs) = map sortNode (filter (\<lambda>h. score h = k) hs)"
proof -
  have "filter (\<lambda>h. score h = k) (sortByScore hs)
        = map sortNode (filter (\<lambda>h. score h = k) (array_sort byScore hs))"
    by (simp add: sortByScore_map filter_map comp_def)
  then show ?thesis by (simp add: stable_array_sort)
qed

lemma mset_sortByScore: "mset (sortByScore hs) = image_mset sortNode (mset hs)"
  by (simp add: sortByScore_map mset_array_sort)

lemma set_sortByScore: "set (sortByScore hs) = sortNode ` set hs"
  by (simp add: sortByScore_map)

lemma length_sortByScore [simp]: "length (sortByScore hs) = length hs"
  using arg_cong [OF mset_sortByScore [of hs], of size] by simp

lemma set_levels:
  "set (levels hs) = insert hs (\<Union>h\<in>set hs. case items h of None \<Rightarrow> {} | Some cs \<Rightarrow> set (levels cs))"
  by (subst levels.simps) (auto split: option.splits)

lemma levels_sortByScore: "set (levels (sortByScore hs)) = sortByScore ` set (levels hs)"
proof (induction hs rule: levels.induct)
  case (1 hs)
  have inner: "(case items (sortNode h) of None \<Rightarrow> {} | Some cs \<Rightarrow> set (levels cs))
               = sortByScore ` (case items h of None \<Rightarrow> {} | Some cs \<Rightarrow> set (levels cs))"
    if "h \<in> set hs" for h
    using that 1 by (cases "items h") (simp_all add: items_sortNode)
  have "set (levels (sortByScore hs))
        = insert (sortByScore hs)
            (\<Union>h\<in>set hs. case items (sortNode h) of None \<Rightarrow> {} | Some cs \<Rightarrow> set (levels cs))"
    by (subst set_levels) (simp add: set_sortByScore)
  also have "\<dots> = insert (sortByScore hs)
            (\<Union>h\<in>set hs. sortByScore ` (case items h of None \<Rightarrow> {} | Some cs \<Rightarrow> set (levels cs)))"
    using inner by simp
  also have "\<dots> = sortByScore ` set (levels hs)"
    by (subst (2) set_levels) (simp add: image_UN)
  finally show ?case .
qed


section \<open>sortByScore on the heap: the input is left as it was\<close>

text \<open>
  In the program a forest is an array of references to objects, \<open>sort\<close> reorders an array
  in place, and an object's \<open>items\<close> is a reference to another array. To say that the
  input is not mutated the function is written once more over an explicit heap: arrays
  and objects live at addresses, and a counter per kind gives the next free address.
\<close>

record hobby_obj =
  obj_name :: string
  obj_items :: "nat option"
  obj_score :: int

record heap =
  arrays :: "nat \<rightharpoonup> nat list"
  objects :: "nat \<rightharpoonup> hobby_obj"
  nextArray :: nat
  nextObject :: nat

text \<open>Allocation: \<open>[...xs]\<close> and \<open>.map\<close> make a new array, an object literal a new object.\<close>

definition newArray :: "nat list \<Rightarrow> heap \<Rightarrow> nat \<times> heap" where
  "newArray xs h =
     (nextArray h, h\<lparr>arrays := (arrays h)(nextArray h \<mapsto> xs), nextArray := Suc (nextArray h)\<rparr>)"

definition newObject :: "hobby_obj \<Rightarrow> heap \<Rightarrow> nat \<times> heap" where
  "newObject ob h =
     (nextObject h, h\<lparr>objects := (objects h)(nextObject h \<mapsto> ob), nextObject := Suc (nextObject h)\<rparr>)"

text \<open>
  \<open>array.sort((a, b) => b.score - a.score)\<close> overwrites the array at its address; the
  comparator reads the scores of the objects the elements refer to. Sorting an address
  that holds no array fails.
\<close>

definition scoreAt :: "heap \<Rightarrow> nat \<Rightarrow> int" where
  "scoreAt h r = (case objects h r of None \<Rightarrow> 0 | Some ob \<Rightarrow> obj_score ob)"

definition byScoreAt :: "heap \<Rightarrow> nat \<Rightarrow> nat \<Rightarrow> int" where
  "byScoreAt h a b = scoreAt h b - scoreAt h a"

definition sortInPlace :: "nat \<Rightarrow> heap \<Rightarrow> heap option" where
  "sortInPlace a h =
     (case arrays h a of
        None \<Rightarrow> None
      | Some xs \<Rightarrow> Some (h\<lparr>arrays := (arrays h)(a \<mapsto> array_sort (byScoreAt h) xs)\<rparr>))"

text \<open>
  The function, statement by statement: the spread copy, the sort of the copy in place,
  and the \<open>map\<close> whose callback builds a new object from the old one's fields with
  \<open>items\<close> replaced by the sorted items. A heap may hold an array among its own
  descendants, on which the program would not return; the recursion depth is therefore
  bounded by \<open>fuel\<close>, and \<open>None\<close> is a call that ran out of it (or met a dangling
  reference).
\<close>

fun sortByScore_heap :: "nat \<Rightarrow> nat \<Rightarrow> heap \<Rightarrow> (nat \<times> heap) option"
  and mapHobbies :: "nat \<Rightarrow> nat list \<Rightarrow> heap \<Rightarrow> (nat list \<times> heap) option" where
  "sortByScore_heap 0 hobbies h = None"
| "sortByScore_heap (Suc fuel) hobbies h =
     (case arrays h hobbies of
        None \<Rightarrow> None
      | Some xs \<Rightarrow>
          let (copy, h1) = newArray xs h
          in (case sortInPlace copy h1 of
                None \<Rightarrow> None
              | Some h2 \<Rightarrow>
                  (case arrays h2 copy of
                     None \<Rightarrow> None
                   | Some ordered \<Rightarrow>
                       (case mapHobbies fuel ordered h2 of
                          None \<Rightarrow> None
                        | Some (mapped, h3) \<Rightarrow> Some (newArray mapped h3)))))"
| "mapHobbies fuel [] h = Some ([], h)"
| "mapHobbies fuel (hobby # rest) h =
     (case objects h hobby of
        None \<Rightarrow> None
      | Some ob \<Rightarrow>
          (case (case obj_items ob of
                   None \<Rightarrow> Some (None, h)
                 | Some its \<Rightarrow>
                     (case sortByScore_heap fuel its h of
                        None \<Rightarrow> None
                      | Some (its', h1) \<Rightarrow> Some (Some its', h1)))
           of None \<Rightarrow> None
            | Some (items', h1) \<Rightarrow>
                let (hobby', h2) = newObject (ob\<lparr>obj_items := items'\<rparr>) h1
                in (case mapHobbies fuel rest h2 of
                      None \<Rightarrow> None
                    | Some (rest', h3) \<Rightarrow> Some (hobby' # rest', h3))))"

text \<open>
  \<open>unchanged h h'\<close>: every array and every object of \<open>h\<close> is in \<open>h'\<close>, at its address and
  with its contents. A heap is well formed when nothing lives at or beyond the next free
  addresses.
\<close>

definition unchanged :: "heap \<Rightarrow> heap \<Rightarrow> bool" where
  "unchanged h h' =
     ((\<forall>a xs. arrays h a = Some xs \<longrightarrow> arrays h' a = Some xs)
      \<and> (\<forall>r ob. objects h r = Some ob \<longrightarrow> objects h' r = Some ob))"

definition wf_heap :: "heap \<Rightarrow> bool" where
  "wf_heap h =
     ((\<forall>a. nextArray h \<le> a \<longrightarrow> arrays h a = None)
      \<and> (\<forall>r. nextObject h \<le> r \<longrightarrow> objects h r = None))"

lemma unchanged_refl [simp]: "unchanged h h"
  by (simp add: unchanged_def)

lemma unchanged_trans: "unchanged h1 h2 \<Longrightarrow> unchanged h2 h3 \<Longrightarrow> unchanged h1 h3"
  by (simp add: unchanged_def)

lemma newArray_frame:
  assumes "wf_heap h" and "newArray xs h = (a, h')"
  shows "unchanged h h'" and "wf_heap h'" and "arrays h' a = Some xs" and "arrays h a = None"
    and "objects h' = objects h"
  using assms by (auto simp: newArray_def wf_heap_def unchanged_def)

lemma newObject_frame:
  assumes "wf_heap h" and "newObject ob h = (r, h')"
  shows "unchanged h h'" and "wf_heap h'" and "objects h' r = Some ob" and "objects h r = None"
    and "arrays h' = arrays h"
  using assms by (auto simp: newObject_def wf_heap_def unchanged_def)

lemma sortInPlace_frame:
  assumes "wf_heap h" and "arrays h0 a = None" and "unchanged h0 h" and "sortInPlace a h = Some h'"
  shows "unchanged h0 h'" and "wf_heap h'" and "objects h' = objects h"
  using assms
  by (auto simp: sortInPlace_def wf_heap_def unchanged_def split: option.splits)

text \<open>A call that returns has only added to the heap.\<close>

lemma frame:
  "wf_heap h \<Longrightarrow> sortByScore_heap n a h = Some (a', h') \<Longrightarrow> unchanged h h' \<and> wf_heap h'"
  "wf_heap h \<Longrightarrow> mapHobbies n rs h = Some (rs', h') \<Longrightarrow> unchanged h h' \<and> wf_heap h'"
proof (induction n a h and n rs h arbitrary: a' h' and rs' h' rule: sortByScore_heap_mapHobbies.induct)
  case (1 hobbies h)
  then show ?case by simp
next
  case (2 fuel hobbies h)
  from "2.prems"(2) obtain xs copy h1 h2 ordered mapped h3 where
    xs: "arrays h hobbies = Some xs" and
    copy: "newArray xs h = (copy, h1)" and
    h2: "sortInPlace copy h1 = Some h2" and
    ordered: "arrays h2 copy = Some ordered" and
    mapped: "mapHobbies fuel ordered h2 = Some (mapped, h3)" and
    res: "newArray mapped h3 = (a', h')"
    by (auto split: option.splits prod.splits simp: Let_def)
  note c = newArray_frame [OF "2.prems"(1) copy]
  note s = sortInPlace_frame [OF c(2) c(4) c(1) h2]
  from "2.IH" [OF xs copy [symmetric] refl h2 ordered s(2) mapped]
  have m: "unchanged h2 h3" "wf_heap h3" by simp_all
  note r = newArray_frame [OF m(2) res]
  have "unchanged h h2" by (rule s(1))
  with m(1) r(1) have "unchanged h h'" by (blast intro: unchanged_trans)
  with r(2) show ?case by simp
next
  case (3 fuel h)
  then show ?case by simp
next
  case (4 fuel hobby rest h)
  from "4.prems"(2) obtain ob items' h1 hobby' h2 rest' where
    ob: "objects h hobby = Some ob" and
    inner: "(case obj_items ob of
               None \<Rightarrow> Some (None, h)
             | Some its \<Rightarrow>
                 (case sortByScore_heap fuel its h of
                    None \<Rightarrow> None
                  | Some (its', h1) \<Rightarrow> Some (Some its', h1))) = Some (items', h1)" and
    obj: "newObject (ob\<lparr>obj_items := items'\<rparr>) h1 = (hobby', h2)" and
    rest: "mapHobbies fuel rest h2 = Some (rest', h')"
    by (auto split: option.splits prod.splits simp: Let_def)
  have h1: "unchanged h h1 \<and> wf_heap h1"
  proof (cases "obj_items ob")
    case None
    with inner "4.prems"(1) show ?thesis by simp
  next
    case (Some its)
    with inner obtain its' where "sortByScore_heap fuel its h = Some (its', h1)"
      by (auto split: option.splits)
    from "4.IH"(1) [OF ob Some "4.prems"(1) this] show ?thesis .
  qed
  note o = newObject_frame [OF h1 [THEN conjunct2] obj]
  from "4.IH"(2) [OF ob inner refl refl obj [symmetric] o(2) rest]
  have "unchanged h2 h'" and "wf_heap h'" by simp_all
  with h1 o(1) show ?case by (blast intro: unchanged_trans)
qed


text \<open>
  The forest a heap holds at an address: \<open>reprNode h r x\<close> when the object at \<open>r\<close> has
  the name and score of \<open>x\<close> and its \<open>items\<close> hold the children of \<open>x\<close>, in order.
\<close>

inductive reprNode :: "heap \<Rightarrow> nat \<Rightarrow> Hobby \<Rightarrow> bool" for h where
  leaf: "objects h r = Some ob \<Longrightarrow> obj_items ob = None \<Longrightarrow>
         reprNode h r (Hobby (obj_name ob) None (obj_score ob))"
| inner: "objects h r = Some ob \<Longrightarrow> obj_items ob = Some a \<Longrightarrow> arrays h a = Some rs \<Longrightarrow>
          list_all2 (reprNode h) rs cs \<Longrightarrow>
          reprNode h r (Hobby (obj_name ob) (Some cs) (obj_score ob))"

definition reprForest :: "heap \<Rightarrow> nat \<Rightarrow> Hobby list \<Rightarrow> bool" where
  "reprForest h a hs = (\<exists>rs. arrays h a = Some rs \<and> list_all2 (reprNode h) rs hs)"

text \<open>The nesting depth of a forest: the fuel a call needs is one more.\<close>

fun depthF :: "Hobby list \<Rightarrow> nat" where
  "depthF [] = 0"
| "depthF (Hobby n None s # hs) = depthF hs"
| "depthF (Hobby n (Some cs) s # hs) = max (Suc (depthF cs)) (depthF hs)"

lemma reprNode_mono:
  assumes "reprNode h r x" and "unchanged h h'"
  shows "reprNode h' r x"
  using assms
proof (induction rule: reprNode.induct)
  case (leaf r ob)
  then have "objects h' r = Some ob" by (simp add: unchanged_def)
  with leaf show ?case by (intro reprNode.leaf)
next
  case (inner r ob a rs cs)
  then have "objects h' r = Some ob" and "arrays h' a = Some rs" by (simp_all add: unchanged_def)
  moreover from inner have "list_all2 (reprNode h') rs cs"
    by (auto elim: list_all2_mono)
  ultimately show ?case using inner.hyps(2) by (intro reprNode.inner)
qed

lemma reprForest_mono:
  assumes "reprForest h a hs" and "unchanged h h'"
  shows "reprForest h' a hs"
proof -
  from assms(1) obtain rs where rs: "arrays h a = Some rs" "list_all2 (reprNode h) rs hs"
    unfolding reprForest_def by blast
  from rs(1) assms(2) have "arrays h' a = Some rs" by (simp add: unchanged_def)
  moreover from rs(2) have "list_all2 (reprNode h') rs hs"
    by (rule list_all2_mono) (rule reprNode_mono [OF _ assms(2)])
  ultimately show ?thesis unfolding reprForest_def by blast
qed

lemma reprNode_score: "reprNode h r x \<Longrightarrow> scoreAt h r = score x"
  by (auto simp: scoreAt_def elim: reprNode.cases)

lemma insert_cmp_repr:
  assumes "list_all2 (reprNode h) rs xs" and "reprNode h r x"
  shows "list_all2 (reprNode h) (insert_cmp (byScoreAt h) r rs) (insert_cmp byScore x xs)"
  using assms
  by (induction rule: list_all2_induct) (auto simp: byScoreAt_def byScore_def reprNode_score)

lemma array_sort_repr:
  assumes "list_all2 (reprNode h) rs xs"
  shows "list_all2 (reprNode h) (array_sort (byScoreAt h) rs) (array_sort byScore xs)"
  using assms
  by (induction rule: list_all2_induct) (simp_all add: array_sort_def insert_cmp_repr)

lemma depthF_child: "x \<in> set hs \<Longrightarrow> items x = Some cs \<Longrightarrow> depthF cs < depthF hs"
  by (induction hs rule: depthF.induct) auto

lemma sortNode_simps [simp]:
  "sortNode (Hobby n None s) = Hobby n None s"
  "sortNode (Hobby n (Some cs) s) = Hobby n (Some (sortByScore cs)) s"
  by (simp_all add: sortNode_def)


lemma reprNodeE [consumes 1, case_names leaf inner]:
  assumes "reprNode h r x"
  obtains (leaf) ob where "x = Hobby (obj_name ob) None (obj_score ob)"
      and "objects h r = Some ob" and "obj_items ob = None"
  | (inner) ob a crs cs where "x = Hobby (obj_name ob) (Some cs) (obj_score ob)"
      and "objects h r = Some ob" and "obj_items ob = Some a" and "arrays h a = Some crs"
      and "list_all2 (reprNode h) crs cs"
  using assms by (auto elim: reprNode.cases)

text \<open>
  On a heap that holds a forest, a call with enough fuel returns, and what it returns holds
  the forest that the function on values computes.
\<close>

lemma mapHobbies_refines:
  assumes "list_all2 (reprNode h) rs xs"
    and "wf_heap h"
    and "\<And>x cs a h. x \<in> set xs \<Longrightarrow> items x = Some cs \<Longrightarrow> wf_heap h \<Longrightarrow> reprForest h a cs \<Longrightarrow>
           \<exists>a' h'. sortByScore_heap m a h = Some (a', h') \<and> reprForest h' a' (sortByScore cs)"
  shows "\<exists>rs' h'. mapHobbies m rs h = Some (rs', h') \<and> list_all2 (reprNode h') rs' (map sortNode xs)"
  using assms
proof (induction rs arbitrary: xs h)
  case Nil
  then show ?case by simp
next
  case (Cons r rs)
  from Cons.prems(1) obtain x xs' where xs: "xs = x # xs'" and
    rx: "reprNode h r x" and rest: "list_all2 (reprNode h) rs xs'"
    by (auto simp: list_all2_Cons1)
  have "\<exists>ob items' h1 its'.
          objects h r = Some ob
        \<and> (case obj_items ob of
              None \<Rightarrow> Some (None, h)
            | Some its \<Rightarrow>
                (case sortByScore_heap m its h of
                   None \<Rightarrow> None
                 | Some (its', h1) \<Rightarrow> Some (Some its', h1))) = Some (items', h1)
        \<and> unchanged h h1 \<and> wf_heap h1
        \<and> sortNode x = Hobby (obj_name ob) its' (obj_score ob)
        \<and> rel_option (reprForest h1) items' its'"
    using rx
  proof (cases rule: reprNodeE)
    case (leaf ob)
    with Cons.prems(2) show ?thesis by auto
  next
    case (inner ob a crs cs)
    then have "reprForest h a cs" unfolding reprForest_def by blast
    with Cons.prems(3) [of x cs h a] inner(1) Cons.prems(2) xs
    obtain a' h1 where rec: "sortByScore_heap m a h = Some (a', h1)" "reprForest h1 a' (sortByScore cs)"
      by auto
    from frame(1) [OF Cons.prems(2) rec(1)] have "unchanged h h1" "wf_heap h1" by simp_all
    with inner rec show ?thesis by auto
  qed
  then obtain ob items' h1 its' where
    ob: "objects h r = Some ob" and
    rec: "(case obj_items ob of
              None \<Rightarrow> Some (None, h)
            | Some its \<Rightarrow>
                (case sortByScore_heap m its h of
                   None \<Rightarrow> None
                 | Some (its', h1) \<Rightarrow> Some (Some its', h1))) = Some (items', h1)" and
    h1: "unchanged h h1" "wf_heap h1" and
    sx: "sortNode x = Hobby (obj_name ob) its' (obj_score ob)" and
    its': "rel_option (reprForest h1) items' its'"
    by blast
  obtain r' h2 where obj: "newObject (ob\<lparr>obj_items := items'\<rparr>) h1 = (r', h2)"
    by (cases "newObject (ob\<lparr>obj_items := items'\<rparr>) h1")
  note o = newObject_frame [OF h1(2) obj]
  have "list_all2 (reprNode h2) rs xs'"
    using rest by (rule list_all2_mono) (blast intro: reprNode_mono unchanged_trans h1(1) o(1))
  from Cons.IH [OF this o(2)] Cons.prems(3) xs
  obtain rs' h3 where tail: "mapHobbies m rs h2 = Some (rs', h3)"
    "list_all2 (reprNode h3) rs' (map sortNode xs')"
    by (metis list.set_intros(2))
  from frame(2) [OF o(2) tail(1)] have h3: "unchanged h2 h3" by simp
  have "reprNode h2 r' (sortNode x)"
  proof (cases items')
    case None
    with its' have "its' = None" by simp
    with None o(3) show ?thesis unfolding sx
      using reprNode.leaf [of h2 r' "ob\<lparr>obj_items := None\<rparr>"] by simp
  next
    case (Some a')
    with its' obtain cs' where cs': "its' = Some cs'" "reprForest h1 a' cs'"
      by (cases its') auto
    from cs'(2) o(1) have "reprForest h2 a' cs'" by (rule reprForest_mono)
    then obtain crs where "arrays h2 a' = Some crs" "list_all2 (reprNode h2) crs cs'"
      unfolding reprForest_def by blast
    with Some o(3) cs'(1) show ?thesis unfolding sx
      using reprNode.inner [of h2 r' "ob\<lparr>obj_items := Some a'\<rparr>" a' crs cs'] by simp
  qed
  then have "reprNode h3 r' (sortNode x)" using h3 by (rule reprNode_mono)
  with tail ob rec obj xs show ?case by simp
qed

lemma sortByScore_heap_refines:
  "wf_heap h \<Longrightarrow> reprForest h a hs \<Longrightarrow> depthF hs < n \<Longrightarrow>
   \<exists>a' h'. sortByScore_heap n a h = Some (a', h') \<and> reprForest h' a' (sortByScore hs)"
proof (induction hs arbitrary: n a h rule: sortByScore.induct)
  case (1 hobbies)
  from "1.prems"(3) obtain m where n: "n = Suc m" and m: "depthF hobbies \<le> m"
    by (cases n) auto
  from "1.prems"(2) obtain rs where rs: "arrays h a = Some rs" "list_all2 (reprNode h) rs hobbies"
    unfolding reprForest_def by blast
  obtain copy h1 where copy: "newArray rs h = (copy, h1)" by (cases "newArray rs h")
  note c = newArray_frame [OF "1.prems"(1) copy]
  define h2 where "h2 = h1\<lparr>arrays := (arrays h1)(copy \<mapsto> array_sort (byScoreAt h1) rs)\<rparr>"
  have sip: "sortInPlace copy h1 = Some h2"
    by (simp add: sortInPlace_def c(3) h2_def)
  note s = sortInPlace_frame [OF c(2) c(4) c(1) sip]
  have ordered: "arrays h2 copy = Some (array_sort (byScoreAt h1) rs)"
    by (simp add: h2_def)
  have "list_all2 (reprNode h2) rs hobbies"
    using rs(2) by (rule list_all2_mono) (rule reprNode_mono [OF _ s(1)])
  then have "list_all2 (reprNode h2) (array_sort (byScoreAt h2) rs) (array_sort byScore hobbies)"
    by (rule array_sort_repr)
  moreover have "byScoreAt h2 = byScoreAt h1"
    by (simp add: byScoreAt_def scoreAt_def s(3) fun_eq_iff)
  ultimately have rel: "list_all2 (reprNode h2) (array_sort (byScoreAt h1) rs) (array_sort byScore hobbies)"
    by simp
  have "\<exists>a' h'. sortByScore_heap m a h = Some (a', h') \<and> reprForest h' a' (sortByScore cs)"
    if "x \<in> set (array_sort byScore hobbies)" "items x = Some cs" "wf_heap h" "reprForest h a cs"
    for x cs a h
  proof -
    from that(1,2) have "depthF cs < depthF hobbies" by (simp add: depthF_child)
    with m have "depthF cs < m" by simp
    with "1.IH" [OF that] show ?thesis .
  qed
  with mapHobbies_refines [OF rel s(2)]
  obtain mapped h3 where mapped: "mapHobbies m (array_sort (byScoreAt h1) rs) h2 = Some (mapped, h3)"
    "list_all2 (reprNode h3) mapped (map sortNode (array_sort byScore hobbies))"
    by blast
  obtain a' h' where res: "newArray mapped h3 = (a', h')" by (cases "newArray mapped h3")
  from frame(2) [OF s(2) mapped(1)] have "wf_heap h3" by simp
  note r = newArray_frame [OF this res]
  from mapped(2) have "list_all2 (reprNode h') mapped (sortByScore hobbies)"
    unfolding sortByScore_map by (rule list_all2_mono) (rule reprNode_mono [OF _ r(1)])
  with r(3) have "reprForest h' a' (sortByScore hobbies)" unfolding reprForest_def by blast
  moreover have "sortByScore_heap n a h = Some (a', h')"
    by (simp add: n rs(1) copy sip ordered mapped(1) res)
  ultimately show ?case by blast
qed


lemma sortByScore_heap_fresh:
  assumes "wf_heap h" and "sortByScore_heap n a h = Some (a', h')"
  shows "arrays h a' = None"
proof (cases n)
  case 0
  with assms(2) show ?thesis by simp
next
  case (Suc fuel)
  with assms(2) obtain xs copy h1 h2 ordered mapped h3 where
    xs: "arrays h a = Some xs" and
    copy: "newArray xs h = (copy, h1)" and
    h2: "sortInPlace copy h1 = Some h2" and
    ordered: "arrays h2 copy = Some ordered" and
    mapped: "mapHobbies fuel ordered h2 = Some (mapped, h3)" and
    res: "newArray mapped h3 = (a', h')"
    by (auto split: option.splits prod.splits simp: Let_def)
  note c = newArray_frame [OF assms(1) copy]
  note s = sortInPlace_frame [OF c(2) c(4) c(1) h2]
  from frame(2) [OF s(2) mapped] have m: "unchanged h2 h3" "wf_heap h3" by simp_all
  note r = newArray_frame [OF m(2) res]
  from s(1) m(1) have "unchanged h h3" by (rule unchanged_trans)
  with r(4) show ?thesis by (cases "arrays h a'") (auto simp: unchanged_def)
qed

lemma mapHobbies_fresh:
  assumes "wf_heap h" and "mapHobbies n rs h = Some (rs', h')"
  shows "\<forall>r\<in>set rs'. objects h r = None"
  using assms
proof (induction rs arbitrary: h rs' h')
  case Nil
  then show ?case by simp
next
  case (Cons hobby rest)
  from Cons.prems(2) obtain ob items' h1 hobby' h2 rest' where
    ob: "objects h hobby = Some ob" and
    inner: "(case obj_items ob of
               None \<Rightarrow> Some (None, h)
             | Some its \<Rightarrow>
                 (case sortByScore_heap n its h of
                    None \<Rightarrow> None
                  | Some (its', h1) \<Rightarrow> Some (Some its', h1))) = Some (items', h1)" and
    obj: "newObject (ob\<lparr>obj_items := items'\<rparr>) h1 = (hobby', h2)" and
    rest: "mapHobbies n rest h2 = Some (rest', h')" and
    rs': "rs' = hobby' # rest'"
    by (auto split: option.splits prod.splits simp: Let_def)
  have h1: "unchanged h h1 \<and> wf_heap h1"
  proof (cases "obj_items ob")
    case None
    with inner Cons.prems(1) show ?thesis by simp
  next
    case (Some its)
    with inner obtain its' where "sortByScore_heap n its h = Some (its', h1)"
      by (auto split: option.splits)
    from frame(1) [OF Cons.prems(1) this] show ?thesis .
  qed
  note o = newObject_frame [OF h1 [THEN conjunct2] obj]
  from h1 o(1) have hh2: "unchanged h h2" by (blast intro: unchanged_trans)
  have absent: "objects h r = None" if "objects h2 r = None" for r
    using that hh2 by (cases "objects h r") (auto simp: unchanged_def)
  from o(4) h1 have "objects h hobby' = None"
    by (cases "objects h hobby'") (auto simp: unchanged_def)
  moreover from Cons.IH [OF o(2) rest] have "\<forall>r\<in>set rest'. objects h r = None"
    by (blast intro: absent)
  ultimately show ?case by (simp add: rs')
qed

lemma sortByScore_heap_result_fresh:
  assumes "wf_heap h" and "sortByScore_heap n a h = Some (a', h')" and "arrays h' a' = Some rs'"
  shows "\<forall>r\<in>set rs'. objects h r = None"
proof (cases n)
  case 0
  with assms(2) show ?thesis by simp
next
  case (Suc fuel)
  with assms(2) obtain xs copy h1 h2 ordered mapped h3 where
    xs: "arrays h a = Some xs" and
    copy: "newArray xs h = (copy, h1)" and
    h2: "sortInPlace copy h1 = Some h2" and
    ordered: "arrays h2 copy = Some ordered" and
    mapped: "mapHobbies fuel ordered h2 = Some (mapped, h3)" and
    res: "newArray mapped h3 = (a', h')"
    by (auto split: option.splits prod.splits simp: Let_def)
  note c = newArray_frame [OF assms(1) copy]
  note s = sortInPlace_frame [OF c(2) c(4) c(1) h2]
  from frame(2) [OF s(2) mapped] have m: "unchanged h2 h3" "wf_heap h3" by simp_all
  note r = newArray_frame [OF m(2) res]
  from r(3) assms(3) have "rs' = mapped" by simp
  moreover from mapHobbies_fresh [OF s(2) mapped] have "\<forall>r\<in>set mapped. objects h2 r = None" .
  moreover have "objects h r = None" if "objects h2 r = None" for r
    using that s(1) by (cases "objects h r") (auto simp: unchanged_def)
  ultimately show ?thesis by blast
qed

lemma sortByScore_heap_leaves_input:
  assumes "wf_heap h" and "reprForest h a hs" and "depthF hs < n"
  shows "\<exists>a' h' rs'. sortByScore_heap n a h = Some (a', h')
           \<and> reprForest h' a' (sortByScore hs)
           \<and> unchanged h h' \<and> reprForest h' a hs
           \<and> arrays h a' = None \<and> arrays h' a' = Some rs' \<and> (\<forall>r\<in>set rs'. objects h r = None)"
proof -
  from sortByScore_heap_refines [OF assms] obtain a' h' where
    res: "sortByScore_heap n a h = Some (a', h')" "reprForest h' a' (sortByScore hs)"
    by blast
  from frame(1) [OF assms(1) res(1)] have un: "unchanged h h'" by simp
  from assms(2) un have "reprForest h' a hs" by (rule reprForest_mono)
  moreover from res(2) obtain rs' where rs': "arrays h' a' = Some rs'"
    unfolding reprForest_def by blast
  moreover note sortByScore_heap_fresh [OF assms(1) res(1)]
    sortByScore_heap_result_fresh [OF assms(1) res(1) rs']
  ultimately show ?thesis using res un by blast
qed

text \<open>
  Claim C1. For every forest \<open>hs\<close>, the sibling lists of \<open>sortByScore hs\<close> are exactly the
  sorted images of the sibling lists of \<open>hs\<close>, at every depth. For each sibling list \<open>l\<close> of
  the input, \<open>sortByScore l\<close> is in descending order of score; it holds the same siblings,
  each one copied by \<open>sortNode\<close> (same name, same score, its own items sorted in turn); and
  for every score \<open>k\<close> the siblings of score \<open>k\<close> stand in the result in the order they had
  in the input (the sort is stable). On a heap that holds \<open>hs\<close> at an address, the call
  returns a new array of new objects that holds \<open>sortByScore hs\<close>, and every array and
  object that was on the heap before the call is there after it with the same contents: the
  input address still holds \<open>hs\<close>.
\<close>

theorem sortByScore_levels_descending_stable:
  "set (levels (sortByScore hs)) = sortByScore ` set (levels hs)
   \<and> (\<forall>l \<in> set (levels hs).
         descending (sortByScore l)
         \<and> mset (sortByScore l) = image_mset sortNode (mset l)
         \<and> (\<forall>k. filter (\<lambda>x. score x = k) (sortByScore l)
                  = map sortNode (filter (\<lambda>x. score x = k) l)))
   \<and> (\<forall>x. name (sortNode x) = name x \<and> score (sortNode x) = score x
            \<and> items (sortNode x) = map_option sortByScore (items x))
   \<and> (\<forall>h a fuel. wf_heap h \<and> reprForest h a hs \<and> depthF hs < fuel \<longrightarrow>
         (\<exists>a' h' rs'. sortByScore_heap fuel a h = Some (a', h')
            \<and> reprForest h' a' (sortByScore hs)
            \<and> unchanged h h' \<and> reprForest h' a hs
            \<and> arrays h a' = None \<and> arrays h' a' = Some rs'
            \<and> (\<forall>r\<in>set rs'. objects h r = None)))"
proof (intro conjI ballI allI impI)
  show "set (levels (sortByScore hs)) = sortByScore ` set (levels hs)"
    by (rule levels_sortByScore)
next
  fix l
  show "descending (sortByScore l)" by (rule descending_sortByScore)
  show "mset (sortByScore l) = image_mset sortNode (mset l)" by (rule mset_sortByScore)
  fix k
  show "filter (\<lambda>x. score x = k) (sortByScore l) = map sortNode (filter (\<lambda>x. score x = k) l)"
    by (rule stable_sortByScore)
next
  fix x
  show "name (sortNode x) = name x" by simp
  show "score (sortNode x) = score x" by simp
  show "items (sortNode x) = map_option sortByScore (items x)" by (rule items_sortNode)
next
  fix h a fuel
  assume "wf_heap h \<and> reprForest h a hs \<and> depthF hs < fuel"
  then show "\<exists>a' h' rs'. sortByScore_heap fuel a h = Some (a', h')
            \<and> reprForest h' a' (sortByScore hs)
            \<and> unchanged h h' \<and> reprForest h' a hs
            \<and> arrays h a' = None \<and> arrays h' a' = Some rs'
            \<and> (\<forall>r\<in>set rs'. objects h r = None)"
    by (intro sortByScore_heap_leaves_input) simp_all
qed

text \<open>
  The theorem at the forest \<open>tied\<close>, on the children of Art: Oil and Ink share the score 1
  and stay in that order behind Clay. And on a heap that holds the scenario's forest: arrays
  0 and 1 are the top level and the children of Music. The call returns the new array 5;
  arrays 0 and 1 hold what they held.
\<close>

definition demoHeap :: heap where
  "demoHeap =
     \<lparr>arrays = [0 \<mapsto> [0, 1], 1 \<mapsto> [2, 3]],
      objects = [0 \<mapsto> \<lparr>obj_name = ''Music'', obj_items = Some 1, obj_score = 10\<rparr>,
                 1 \<mapsto> \<lparr>obj_name = ''Sports'', obj_items = None, obj_score = 7\<rparr>,
                 2 \<mapsto> \<lparr>obj_name = ''Guitar'', obj_items = None, obj_score = 5\<rparr>,
                 3 \<mapsto> \<lparr>obj_name = ''Piano'', obj_items = None, obj_score = 8\<rparr>],
      nextArray = 2, nextObject = 4\<rparr>"

lemma reprForest_demoHeap: "reprForest demoHeap 0 demo"
proof -
  have g: "reprNode demoHeap 2 (Hobby ''Guitar'' None 5)"
    using reprNode.leaf [of demoHeap 2 "\<lparr>obj_name = ''Guitar'', obj_items = None, obj_score = 5\<rparr>"]
    by (simp add: demoHeap_def)
  have p: "reprNode demoHeap 3 (Hobby ''Piano'' None 8)"
    using reprNode.leaf [of demoHeap 3 "\<lparr>obj_name = ''Piano'', obj_items = None, obj_score = 8\<rparr>"]
    by (simp add: demoHeap_def)
  have s: "reprNode demoHeap 1 (Hobby ''Sports'' None 7)"
    using reprNode.leaf [of demoHeap 1 "\<lparr>obj_name = ''Sports'', obj_items = None, obj_score = 7\<rparr>"]
    by (simp add: demoHeap_def)
  have m: "reprNode demoHeap 0
             (Hobby ''Music'' (Some [Hobby ''Guitar'' None 5, Hobby ''Piano'' None 8]) 10)"
    using reprNode.inner [of demoHeap 0
        "\<lparr>obj_name = ''Music'', obj_items = Some 1, obj_score = 10\<rparr>" 1 "[2, 3]"
        "[Hobby ''Guitar'' None 5, Hobby ''Piano'' None 8]"] g p
    by (simp add: demoHeap_def)
  from m s show ?thesis
    by (simp add: reprForest_def demo_def demoHeap_def)
qed

theorem sortByScore_levels_descending_stable_witness:
  "[Hobby ''Oil'' None 1, Hobby ''Ink'' None 1, Hobby ''Clay'' None 4] \<in> set (levels tied)
   \<and> sortByScore [Hobby ''Oil'' None 1, Hobby ''Ink'' None 1, Hobby ''Clay'' None 4]
       = [Hobby ''Clay'' None 4, Hobby ''Oil'' None 1, Hobby ''Ink'' None 1]
   \<and> descending [Hobby ''Clay'' None 4, Hobby ''Oil'' None 1, Hobby ''Ink'' None 1]
   \<and> filter (\<lambda>x. score x = 1) [Hobby ''Clay'' None 4, Hobby ''Oil'' None 1, Hobby ''Ink'' None 1]
       = [Hobby ''Oil'' None 1, Hobby ''Ink'' None 1]
   \<and> wf_heap demoHeap \<and> reprForest demoHeap 0 demo \<and> depthF demo < 2
   \<and> (case sortByScore_heap 2 0 demoHeap of
         None \<Rightarrow> False
       | Some (a', h') \<Rightarrow>
           a' = 5 \<and> arrays h' 5 = Some [6, 7]
           \<and> arrays h' 0 = Some [0, 1] \<and> arrays h' 1 = Some [2, 3]
           \<and> reprForest h' 0 demo \<and> reprForest h' 5 (sortByScore demo))"
proof -
  let ?l = "[Hobby ''Oil'' None 1, Hobby ''Ink'' None 1, Hobby ''Clay'' None 4]"
  have mem: "?l \<in> set (levels tied)"
    by (simp add: tied_def levels.simps)
  have val: "sortByScore ?l = [Hobby ''Clay'' None 4, Hobby ''Oil'' None 1, Hobby ''Ink'' None 1]"
    by (simp add: sortByScore.simps array_sort_def byScore_def)
  note all = sortByScore_levels_descending_stable [of tied]
  from all mem have "descending (sortByScore ?l)" by blast
  with mem val have pure: "?l \<in> set (levels tied)
      \<and> sortByScore ?l = [Hobby ''Clay'' None 4, Hobby ''Oil'' None 1, Hobby ''Ink'' None 1]
      \<and> descending [Hobby ''Clay'' None 4, Hobby ''Oil'' None 1, Hobby ''Ink'' None 1]
      \<and> filter (\<lambda>x. score x = 1) [Hobby ''Clay'' None 4, Hobby ''Oil'' None 1, Hobby ''Ink'' None 1]
          = [Hobby ''Oil'' None 1, Hobby ''Ink'' None 1]"
    by simp
  have wf: "wf_heap demoHeap" by (simp add: wf_heap_def demoHeap_def)
  have depth: "depthF demo < 2" by (simp add: demo_def)
  have run: "map_option (\<lambda>(a', h'). (a', arrays h' 5, arrays h' 0, arrays h' 1))
               (sortByScore_heap 2 0 demoHeap)
             = Some (5, Some [6, 7], Some [0, 1], Some [2, 3])"
    by code_simp
  from sortByScore_levels_descending_stable [of demo] wf reprForest_demoHeap depth
  obtain a' h' where res: "sortByScore_heap 2 0 demoHeap = Some (a', h')"
    "reprForest h' a' (sortByScore demo)" "reprForest h' 0 demo"
    by blast
  with run have "a' = 5 \<and> arrays h' 5 = Some [6, 7]
           \<and> arrays h' 0 = Some [0, 1] \<and> arrays h' 1 = Some [2, 3]
           \<and> reprForest h' 0 demo \<and> reprForest h' 5 (sortByScore demo)"
    by auto
  with res(1) pure wf reprForest_demoHeap depth show ?thesis by simp
qed

section \<open>Strings\<close>

text \<open>
  A \<open>string\<close> is a list of 8-bit characters, read here as the code points U+0000 to U+00FF.
  In that range \<open>String.prototype.trim\<close> strips tab, line feed, vertical tab, form feed,
  carriage return, space and no-break space, and \<open>toLowerCase\<close> maps the letters A to Z and
  the accented capitals U+00C0 to U+00DE (but not the multiplication sign U+00D7) to the
  letter 32 places further on, character by character.
\<close>

definition isWhiteSpace :: "char \<Rightarrow> bool" where
  "isWhiteSpace c = (of_char c \<in> {9, 10, 11, 12, 13, 32, 160 :: nat})"

definition trim :: "string \<Rightarrow> string" where
  "trim s = rev (dropWhile isWhiteSpace (rev (dropWhile isWhiteSpace s)))"

definition toLowerChar :: "char \<Rightarrow> char" where
  "toLowerChar c =
     (let n = of_char c :: nat
      in if (65 \<le> n \<and> n \<le> 90) \<or> (192 \<le> n \<and> n \<le> 222 \<and> n \<noteq> 215)
         then char_of (n + 32) else c)"

definition toLowerCase :: "string \<Rightarrow> string" where
  "toLowerCase s = map toLowerChar s"

text \<open>\<open>String.prototype.includes\<close>: the search string occurs at some position.\<close>

fun startsWith :: "'a list \<Rightarrow> 'a list \<Rightarrow> bool" where
  "startsWith s [] = True"
| "startsWith [] (c # t) = False"
| "startsWith (a # s) (c # t) = (a = c \<and> startsWith s t)"

fun includes_str :: "'a list \<Rightarrow> 'a list \<Rightarrow> bool" where
  "includes_str [] t = (t = [])"
| "includes_str (a # s) t = (startsWith (a # s) t \<or> includes_str s t)"

section \<open>Flattening\<close>

text \<open>
  \<^verbatim>\<open>
  const getAllHobbies = (hobbies: Hobby[]): string[] => {
    return hobbies.reduce<string[]>((acc, hobby) => {
      acc.push(hobby.name);
      if (hobby.items) {
        acc.push(...getAllHobbies(hobby.items));
      }
      return acc;
    }, []);
  }
  \<close>
\<close>

function getAllHobbies :: "Hobby list \<Rightarrow> string list" where
  "getAllHobbies hobbies =
     foldl (\<lambda>acc hobby.
              let acc1 = acc @ [name hobby]
              in case items hobby of None \<Rightarrow> acc1 | Some its \<Rightarrow> acc1 @ getAllHobbies its)
           [] hobbies"
  by pat_completeness auto
termination
  by (relation "measure (size_list size)") (auto simp: size_items_less)

declare getAllHobbies.simps [simp del]

text \<open>
  \<^verbatim>\<open>
  const getAllHobbiesInOrder = (hobbies: Hobby[]): string[] => {
    const result: string[] = [];
    const traverse = (hobby: Hobby): void => {
      result.push(hobby.name);
      hobby.items?.forEach(traverse);
    };
    sortByScore(hobbies).forEach(traverse);
    return result;
  }
  \<close>
  \<open>traverse\<close> takes the array \<open>result\<close> it pushes to and returns it.
\<close>

lemma size_member_le: "h \<in> set its \<Longrightarrow> size h \<le> size_list size its"
  by (induction its) auto

lemma size_item_less: "items hobby = Some its \<Longrightarrow> h \<in> set its \<Longrightarrow> size h < size hobby"
  using size_member_le [of h its] by (cases hobby) auto

function traverse :: "Hobby \<Rightarrow> string list \<Rightarrow> string list" where
  "traverse hobby result =
     (let result1 = result @ [name hobby]
      in case items hobby of
           None \<Rightarrow> result1
         | Some its \<Rightarrow> foldl (\<lambda>r h. traverse h r) result1 its)"
  by pat_completeness auto
termination
  by (relation "measure (\<lambda>(hobby, result). size hobby)") (auto simp: size_item_less)

declare traverse.simps [simp del]

definition getAllHobbiesInOrder :: "Hobby list \<Rightarrow> string list" where
  "getAllHobbiesInOrder hobbies = foldl (\<lambda>r h. traverse h r) [] (sortByScore hobbies)"

text \<open>
  The pre-order traversal of a forest, as the specification words it: a node's name, then
  its descendants, then its later siblings.
\<close>

fun preorder :: "Hobby list \<Rightarrow> string list" where
  "preorder [] = []"
| "preorder (Hobby n None s # hs) = n # preorder hs"
| "preorder (Hobby n (Some cs) s # hs) = n # preorder cs @ preorder hs"

text \<open>
  The flattened name list as the specification words it, written without the program's
  sort. \<open>sortedLevel\<close> orders one sibling list by descending score and keeps siblings of
  equal score in their input order: it is the library's stable sort on the negated score.
  \<open>flatten\<close> reads the forest in pre-order with every sibling list so ordered: a node's
  name, then the flattened list of its children, then its later siblings.
\<close>

definition sortedLevel :: "Hobby list \<Rightarrow> Hobby list" where
  "sortedLevel hs = sort_key (\<lambda>h. - score h) hs"

function flatten :: "Hobby list \<Rightarrow> string list" where
  "flatten forest =
     concat (map (\<lambda>h. name h # (case items h of None \<Rightarrow> [] | Some cs \<Rightarrow> flatten cs))
                 (sort_key (\<lambda>h. - score h) forest))"
  by pat_completeness auto
termination
  by (relation "measure (size_list size)") (auto simp: size_items_less)

declare flatten.simps [simp del]

section \<open>The component's state and its event handlers\<close>

text \<open>
  \<open>expandedSections\<close> is declared a \<open>Record<string, number>\<close> and starts as the object
  literal \<open>{}\<close>, an ordinary object whose prototype is \<open>Object.prototype\<close>. The values
  that can stand under a key, or be read under it, are: a count; the member of
  \<open>Object.prototype\<close> of a given name (a function, or for \<open>__proto__\<close> the prototype
  object); and the strings that \<open>v + 5\<close> gives when \<open>v\<close> is not a number:
  \<open>Text m n\<close> is the text of the member \<open>m\<close> followed by \<open>n + 1\<close> digits 5.
\<close>

datatype section_value =
  Count nat
  | Inherited string
  | Text string nat

text \<open>The names of the properties of \<open>Object.prototype\<close>.\<close>

definition objectPrototypeMembers :: "string list" where
  "objectPrototypeMembers =
     [''constructor'', ''hasOwnProperty'', ''isPrototypeOf'', ''propertyIsEnumerable'',
      ''toLocaleString'', ''toString'', ''valueOf'', ''__proto__'',
      ''__defineGetter__'', ''__defineSetter__'', ''__lookupGetter__'', ''__lookupSetter__'']"

text \<open>
  \<open>obj[key]\<close> on such an object, whose own properties are the map \<open>own\<close>: the own
  property if there is one, else the member of \<open>Object.prototype\<close> of that name if
  there is one, else \<open>undefined\<close>.
\<close>

definition getProperty :: "(string \<rightharpoonup> section_value) \<Rightarrow> string \<Rightarrow> section_value option" where
  "getProperty own key =
     (case own key of
        Some v \<Rightarrow> Some v
      | None \<Rightarrow> if key \<in> set objectPrototypeMembers then Some (Inherited key) else None)"

text \<open>
  The four \<open>useState\<close> cells of the component; \<open>expandedSections\<close> holds the own
  properties of the object.
\<close>

record component_state =
  selectedHobbies :: "string list"
  searchTerm :: string
  filteredHobbies :: "string list"
  expandedSections :: "string \<rightharpoonup> section_value"

text \<open>
  \<^verbatim>\<open>
  setSelectedHobbies((prev) =>
    prev.includes(hobby) ? prev.filter((h) => h !== hobby) : [...prev, hobby]);
  \<close>
\<close>

definition toggleHobby :: "string \<Rightarrow> component_state \<Rightarrow> component_state" where
  "toggleHobby hobby st =
     st\<lparr>selectedHobbies :=
          (let prev = selectedHobbies st
           in if hobby \<in> set prev then filter (\<lambda>h. h \<noteq> hobby) prev else prev @ [hobby])\<rparr>"

definition clearAllHobbies :: "component_state \<Rightarrow> component_state" where
  "clearAllHobbies st = st\<lparr>selectedHobbies := []\<rparr>"

text \<open>
  \<^verbatim>\<open>
  (value: string) => {
    setSearchTerm(value);
    const trimmedValue = value.trim();
    if (!trimmedValue) { setFilteredHobbies([]); return; }
    const allHobbies = getAllHobbies(sortByScore(data));
    const searchLower = trimmedValue.toLowerCase();
    const filtered = allHobbies.filter((hobby) => hobby.toLowerCase().includes(searchLower));
    setFilteredHobbies(filtered);
  }
  \<close>
  \<open>data\<close>, the imported taxonomy, is a parameter.
\<close>

definition handleSearch :: "Hobby list \<Rightarrow> string \<Rightarrow> component_state \<Rightarrow> component_state" where
  "handleSearch data v st =
     (let st1 = st\<lparr>searchTerm := v\<rparr>;
          trimmedValue = trim v
      in if trimmedValue = [] then st1\<lparr>filteredHobbies := []\<rparr>
         else
           let allHobbies = getAllHobbies (sortByScore data);
               searchLower = toLowerCase trimmedValue;
               filtered = filter (\<lambda>hobby. includes_str (toLowerCase hobby) searchLower) allHobbies
           in st1\<lparr>filteredHobbies := filtered\<rparr>)"

text \<open>
  \<^verbatim>\<open>
  setExpandedSections((prev) => ({ ...prev, [hobbyPath]: (prev[hobbyPath] || 5) + 5 }));
  \<close>
  \<open>x || 5\<close> is 5 when \<open>x\<close> is \<open>undefined\<close> or 0, and \<open>x\<close> itself otherwise: a
  function, an object and a string that is not empty are truthy. \<open>v + 5\<close> adds when \<open>v\<close>
  is a number and concatenates otherwise. The spread copies the own properties, and the
  computed key writes an own property.
\<close>

fun orFive :: "section_value option \<Rightarrow> section_value" where
  "orFive None = Count 5"
| "orFive (Some (Count v)) = (if v = 0 then Count 5 else Count v)"
| "orFive (Some (Inherited m)) = Inherited m"
| "orFive (Some (Text m n)) = Text m n"

fun plusFive :: "section_value \<Rightarrow> section_value" where
  "plusFive (Count v) = Count (v + 5)"
| "plusFive (Inherited m) = Text m 0"
| "plusFive (Text m n) = Text m (Suc n)"

definition showMore :: "string \<Rightarrow> component_state \<Rightarrow> component_state" where
  "showMore hobbyPath st =
     st\<lparr>expandedSections :=
          (expandedSections st)
            (hobbyPath \<mapsto> plusFive (orFive (getProperty (expandedSections st) hobbyPath)))\<rparr>"

text \<open>
  In \<open>renderItems\<close>: \<^verbatim>\<open>const visibleCount = expandedSections[parentPath || "root"] || 5;\<close>
  The key is \<^verbatim>\<open>parentPath || "root"\<close>, the count is read under that key.
\<close>

definition pathKey :: "string \<Rightarrow> string" where
  "pathKey parentPath = (if parentPath = [] then ''root'' else parentPath)"

definition visibleCount :: "component_state \<Rightarrow> string \<Rightarrow> section_value" where
  "visibleCount st key = orFive (getProperty (expandedSections st) key)"

text \<open>
  \<^verbatim>\<open>
  const remainingCount = hobbies.length - visibleCount;
  hobbies.slice(0, visibleCount)
  remainingCount > 0 && <button onClick={() => showMore(parentPath || "root")}>
  \<close>
  \<open>slice\<close> converts its bound to an integer, and what is not a number converts to 0: a
  function, an object, and the text of one followed by digits are \<open>NaN\<close> as numbers. For
  such a bound \<open>remainingCount\<close> is \<open>NaN\<close> and the comparison with 0 is false.
\<close>

fun sliceBound :: "section_value \<Rightarrow> nat" where
  "sliceBound (Count v) = v"
| "sliceBound (Inherited m) = 0"
| "sliceBound (Text m n) = 0"

definition visibleItems :: "component_state \<Rightarrow> string \<Rightarrow> Hobby list \<Rightarrow> Hobby list" where
  "visibleItems st parentPath hobbies =
     take (sliceBound (visibleCount st (pathKey parentPath))) hobbies"

fun remainingPositive :: "nat \<Rightarrow> section_value \<Rightarrow> bool" where
  "remainingPositive len (Count v) = (v < len)"
| "remainingPositive len (Inherited m) = False"
| "remainingPositive len (Text m n) = False"

definition showMoreOffered :: "component_state \<Rightarrow> string \<Rightarrow> Hobby list \<Rightarrow> bool" where
  "showMoreOffered st parentPath hobbies =
     remainingPositive (length hobbies) (visibleCount st (pathKey parentPath))"

text \<open>The click outside the dropdown clears the search.\<close>

definition handleClickOutside :: "component_state \<Rightarrow> component_state" where
  "handleClickOutside st = st\<lparr>searchTerm := [], filteredHobbies := []\<rparr>"

text \<open>
  \<^verbatim>\<open>getAllHobbiesInOrder(data).filter((hobby) => selectedHobbies.includes(hobby))\<close>
\<close>

definition orderedSelectedHobbies :: "Hobby list \<Rightarrow> component_state \<Rightarrow> string list" where
  "orderedSelectedHobbies data st =
     filter (\<lambda>hobby. hobby \<in> set (selectedHobbies st)) (getAllHobbiesInOrder data)"

text \<open>
  \<^verbatim>\<open>
  (hobby: Hobby): { selected: number; total: number } => {
    if (!hobby.items) return { selected: 0, total: 0 };
    return hobby.items.reduce(
      (acc, subHobby) => ({
        total: acc.total + 1,
        selected: acc.selected + (selectedHobbies.includes(subHobby.name) ? 1 : 0),
      }),
      { selected: 0, total: 0 });
  }
  \<close>
\<close>

record counts =
  selected :: nat
  total :: nat

definition getSelectedCount :: "component_state \<Rightarrow> Hobby \<Rightarrow> counts" where
  "getSelectedCount st hobby =
     (case items hobby of
        None \<Rightarrow> \<lparr>selected = 0, total = 0\<rparr>
      | Some its \<Rightarrow>
          foldl (\<lambda>acc subHobby.
                   \<lparr>selected = selected acc + (if name subHobby \<in> set (selectedHobbies st) then 1 else 0),
                    total = total acc + 1\<rparr>)
                \<lparr>selected = 0, total = 0\<rparr> its)"

definition initialState :: "string list \<Rightarrow> component_state" where
  "initialState sel =
     \<lparr>selectedHobbies = sel, searchTerm = [], filteredHobbies = [], expandedSections = Map.empty\<rparr>"

text \<open>
  "The name contains the query, case-insensitively": the lower-cased query occurs in the
  lower-cased name.
\<close>

definition containsIgnoringCase :: "string \<Rightarrow> string \<Rightarrow> bool" where
  "containsIgnoringCase q n = includes_str (toLowerCase n) (toLowerCase q)"

subsection \<open>Both traversals are the pre-order traversal\<close>

lemma preorder_concat:
  "preorder hs = concat (map (\<lambda>h. name h # (case items h of None \<Rightarrow> [] | Some cs \<Rightarrow> preorder cs)) hs)"
  by (induction hs rule: preorder.induct) simp_all

lemma preorder_append: "preorder (xs @ ys) = preorder xs @ preorder ys"
  by (simp add: preorder_concat)

lemma foldl_push:
  "foldl (\<lambda>acc hobby. let acc1 = acc @ [name hobby]
                       in case items hobby of None \<Rightarrow> acc1 | Some its \<Rightarrow> acc1 @ F its) acc hs
   = acc @ concat (map (\<lambda>h. name h # (case items h of None \<Rightarrow> [] | Some its \<Rightarrow> F its)) hs)"
  by (induction hs arbitrary: acc) (simp_all add: Let_def split: option.split)

lemma getAllHobbies_preorder: "getAllHobbies hs = preorder hs"
proof (induction hs rule: getAllHobbies.induct)
  case (1 hobbies)
  have "getAllHobbies hobbies
        = concat (map (\<lambda>h. name h # (case items h of None \<Rightarrow> [] | Some its \<Rightarrow> getAllHobbies its)) hobbies)"
    by (subst getAllHobbies.simps) (simp add: foldl_push)
  also have "\<dots> = concat (map (\<lambda>h. name h # (case items h of None \<Rightarrow> [] | Some its \<Rightarrow> preorder its)) hobbies)"
    using 1 by (intro arg_cong [where f = concat] map_cong refl) (auto split: option.split)
  finally show ?case by (simp add: preorder_concat [symmetric])
qed

lemma foldl_traverse_gen:
  assumes "\<And>h r. h \<in> set hs \<Longrightarrow> traverse h r = r @ preorder [h]"
  shows "foldl (\<lambda>r h. traverse h r) r hs = r @ preorder hs"
  using assms
proof (induction hs arbitrary: r)
  case Nil
  then show ?case by simp
next
  case (Cons a hs)
  have "preorder (a # hs) = preorder [a] @ preorder hs"
    using preorder_append [of "[a]" hs] by simp
  with Cons show ?case by simp
qed

lemma traverse_preorder: "traverse h r = r @ preorder [h]"
proof (induction h r rule: traverse.induct)
  case (1 hobby result)
  show ?case
  proof (cases "items hobby")
    case None
    then show ?thesis by (cases hobby) (simp add: traverse.simps)
  next
    case (Some its)
    have "foldl (\<lambda>r h. traverse h r) (result @ [name hobby]) its
          = (result @ [name hobby]) @ preorder its"
      by (rule foldl_traverse_gen) (rule 1 [OF refl Some])
    with Some show ?thesis by (cases hobby) (simp add: traverse.simps)
  qed
qed

lemma getAllHobbiesInOrder_preorder: "getAllHobbiesInOrder hs = preorder (sortByScore hs)"
  using foldl_traverse_gen [of "sortByScore hs" "[]"]
  by (simp add: getAllHobbiesInOrder_def traverse_preorder)

subsection \<open>What \<open>includes\<close> and \<open>trim\<close> decide\<close>

lemma startsWith_iff: "startsWith s t \<longleftrightarrow> (\<exists>q. s = t @ q)"
  by (induction s t rule: startsWith.induct) auto

lemma includes_str_iff: "includes_str s t \<longleftrightarrow> (\<exists>p q. s = p @ t @ q)"
proof (induction s)
  case Nil
  then show ?case by simp
next
  case (Cons a s)
  show ?case
  proof
    assume "includes_str (a # s) t"
    then consider "startsWith (a # s) t" | "includes_str s t" by auto
    then show "\<exists>p q. a # s = p @ t @ q"
    proof cases
      case 1
      then obtain q where "a # s = t @ q" by (auto simp: startsWith_iff)
      then have "a # s = [] @ t @ q" by simp
      then show ?thesis by blast
    next
      case 2
      with Cons obtain p q where "s = p @ t @ q" by blast
      then have "a # s = (a # p) @ t @ q" by simp
      then show ?thesis by blast
    qed
  next
    assume "\<exists>p q. a # s = p @ t @ q"
    then obtain p q where pq: "a # s = p @ t @ q" by blast
    show "includes_str (a # s) t"
    proof (cases p)
      case Nil
      with pq have "startsWith (a # s) t" by (auto simp: startsWith_iff)
      then show ?thesis by simp
    next
      case (Cons b p')
      with pq have "s = p' @ t @ q" by simp
      with Cons.IH have "includes_str s t" by blast
      then show ?thesis by simp
    qed
  qed
qed

lemma dropWhile_all: "(\<forall>x\<in>set (dropWhile P s). P x) \<longleftrightarrow> (\<forall>x\<in>set s. P x)"
proof
  assume a: "\<forall>x\<in>set (dropWhile P s). P x"
  show "\<forall>x\<in>set s. P x"
  proof (rule ccontr)
    assume "\<not> (\<forall>x\<in>set s. P x)"
    then have ne: "dropWhile P s \<noteq> []" by simp
    then have "\<not> P (hd (dropWhile P s))" by (rule hd_dropWhile)
    moreover from ne have "hd (dropWhile P s) \<in> set (dropWhile P s)" by simp
    ultimately show False using a by blast
  qed
next
  assume "\<forall>x\<in>set s. P x"
  then show "\<forall>x\<in>set (dropWhile P s). P x"
    using set_dropWhileD by fastforce
qed

lemma trim_empty_iff: "trim s = [] \<longleftrightarrow> list_all isWhiteSpace s"
  by (simp add: trim_def list_all_iff dropWhile_all)

lemma sortByScore_demo:
  "sortByScore demo =
     [Hobby ''Music'' (Some [Hobby ''Piano'' None 8, Hobby ''Guitar'' None 5]) 10,
      Hobby ''Sports'' None 7]"
  by (simp add: demo_def sortByScore.simps array_sort_def byScore_def)

lemma preorder_demo: "preorder (sortByScore demo) = [''Music'', ''Piano'', ''Guitar'', ''Sports'']"
  by (simp add: sortByScore_demo)

subsection \<open>The program's flattening is the specification's\<close>

lemma sortedLevel_descending_stable:
  "descending (sortedLevel l) \<and> mset (sortedLevel l) = mset l
   \<and> filter (\<lambda>h. score h = k) (sortedLevel l) = filter (\<lambda>h. score h = k) l"
  using descending_array_sort [of l] stable_array_sort [of k l] mset_array_sort [of l]
  by (simp add: sortedLevel_def array_sort_byScore)

lemma preorder_sortByScore: "preorder (sortByScore hs) = flatten hs"
proof (induction hs rule: flatten.induct)
  case (1 forest)
  have "preorder (sortByScore forest)
        = concat (map (\<lambda>h. name h # (case items h of None \<Rightarrow> [] | Some cs \<Rightarrow> preorder (sortByScore cs)))
                      (array_sort byScore forest))"
    unfolding sortByScore_map preorder_concat [of "map sortNode (array_sort byScore forest)"] map_map
    by (intro arg_cong [where f = concat] map_cong refl)
       (simp add: items_sortNode sortByScore_map split: option.split)
  also have "\<dots> = concat (map (\<lambda>h. name h # (case items h of None \<Rightarrow> [] | Some cs \<Rightarrow> flatten cs))
                      (sort_key (\<lambda>h. - score h) forest))"
    unfolding array_sort_byScore
    using 1 by (intro arg_cong [where f = concat] map_cong refl) (auto split: option.split)
  finally show ?case by (subst flatten.simps)
qed

lemma flatten_demo: "flatten demo = [''Music'', ''Piano'', ''Guitar'', ''Sports'']"
  using preorder_demo by (simp add: preorder_sortByScore)


section \<open>Search\<close>

text \<open>
  Claim C3, as the code has it. A query that is empty or all white space leaves no results.
  Any other query leaves exactly the names of the flattened list that contain the trimmed
  query case-insensitively, in flattened order. The flattened list is \<open>flatten\<close>: the
  pre-order reading of the forest with every sibling list in \<open>sortedLevel\<close> order, and a
  sibling list in that order is descending by score, has the same members, and keeps
  siblings of one score in their input order. The name is matched against the query with
  its leading and trailing white space removed, not against the query as typed. What
  \<open>includes\<close> decides is that the search string occurs somewhere in the name.
\<close>

theorem handleSearch_filters_by_trimmed_query:
  "filteredHobbies (handleSearch data q st) =
     (if list_all isWhiteSpace q then []
      else filter (containsIgnoringCase (trim q)) (flatten data))
   \<and> searchTerm (handleSearch data q st) = q
   \<and> containsIgnoringCase t n = (\<exists>p s. toLowerCase n = p @ toLowerCase t @ s)
   \<and> descending (sortedLevel l) \<and> mset (sortedLevel l) = mset l
   \<and> filter (\<lambda>h. score h = k) (sortedLevel l) = filter (\<lambda>h. score h = k) l"
proof (intro conjI)
  have cic: "(\<lambda>hobby. includes_str (toLowerCase hobby) (toLowerCase (trim q)))
             = containsIgnoringCase (trim q)"
    by (simp add: containsIgnoringCase_def fun_eq_iff)
  show "filteredHobbies (handleSearch data q st) =
     (if list_all isWhiteSpace q then []
      else filter (containsIgnoringCase (trim q)) (flatten data))"
  proof (cases "list_all isWhiteSpace q")
    case True
    then have "trim q = []" by (simp add: trim_empty_iff)
    with True show ?thesis by (simp add: handleSearch_def)
  next
    case False
    then have "trim q \<noteq> []" by (simp add: trim_empty_iff)
    with False show ?thesis
      by (simp add: handleSearch_def Let_def getAllHobbies_preorder preorder_sortByScore cic)
  qed
  show "searchTerm (handleSearch data q st) = q"
    by (simp add: handleSearch_def Let_def)
  show "containsIgnoringCase t n = (\<exists>p s. toLowerCase n = p @ toLowerCase t @ s)"
    by (simp add: containsIgnoringCase_def includes_str_iff)
  show "descending (sortedLevel l)" "mset (sortedLevel l) = mset l"
    "filter (\<lambda>h. score h = k) (sortedLevel l) = filter (\<lambda>h. score h = k) l"
    using sortedLevel_descending_stable [of l k] by simp_all
qed

text \<open>
  The theorem on the scenario's forest, where Guitar (5) stands before Piano (8) in the
  data. The query \<open>I\<close> followed by a space finds Music, Piano and Guitar, in that order:
  Piano before Guitar, as the scores have it and not as the data has it. A query of three
  spaces finds nothing.
\<close>

theorem handleSearch_filters_by_trimmed_query_witness:
  "filteredHobbies (handleSearch demo ''I '' (initialState [])) = [''Music'', ''Piano'', ''Guitar'']
   \<and> filteredHobbies (handleSearch demo ''   '' (initialState [])) = []"
proof -
  have a: "list_all isWhiteSpace ''I '' = False" by code_simp
  have b: "filter (containsIgnoringCase (trim ''I '')) [''Music'', ''Piano'', ''Guitar'', ''Sports'']
           = [''Music'', ''Piano'', ''Guitar'']"
    by code_simp
  have c: "list_all isWhiteSpace ''   '' = True" by code_simp
  have "filteredHobbies (handleSearch demo ''I '' (initialState [])) = [''Music'', ''Piano'', ''Guitar'']"
    using handleSearch_filters_by_trimmed_query [of demo "''I ''" "initialState []", THEN conjunct1]
    by (simp only: a b flatten_demo if_False)
  moreover have "filteredHobbies (handleSearch demo ''   '' (initialState [])) = []"
    using handleSearch_filters_by_trimmed_query [of demo "''   ''" "initialState []", THEN conjunct1]
    by (simp only: c if_True)
  ultimately show ?thesis by (rule conjI)
qed

text \<open>
  Claim C3 as stated fails for a query with a space at its end. No name of the scenario's
  flattened list contains \<open>i\<close> followed by a space, so the claim's subsequence is empty,
  yet the search for it returns Music, Piano and Guitar.
\<close>

theorem handleSearch_untrimmed_query_counterexample:
  "filter (containsIgnoringCase ''i '') (flatten demo) = []
   \<and> \<not> list_all isWhiteSpace ''i ''
   \<and> filteredHobbies (handleSearch demo ''i '' (initialState []))
       = [''Music'', ''Piano'', ''Guitar'']"
  by code_simp

section \<open>The ordered selection\<close>

text \<open>
  Claim C4. The ordered selection is the flattened list, filtered to the names that are in
  the selection list. The flattened list is \<open>flatten\<close>: the pre-order reading of the forest
  with every sibling list in \<open>sortedLevel\<close> order, which is descending by score, has the
  same members, and keeps siblings of one score in their input order. So two selection
  lists with the same names give the same ordered selection, whatever the order of the
  lists and however often a name occurs in them.
\<close>

theorem orderedSelectedHobbies_canonical:
  "orderedSelectedHobbies data st
     = filter (\<lambda>n. n \<in> set (selectedHobbies st)) (flatten data)
   \<and> (\<forall>st'. set (selectedHobbies st') = set (selectedHobbies st)
        \<longrightarrow> orderedSelectedHobbies data st' = orderedSelectedHobbies data st)
   \<and> descending (sortedLevel l) \<and> mset (sortedLevel l) = mset l
   \<and> filter (\<lambda>h. score h = k) (sortedLevel l) = filter (\<lambda>h. score h = k) l"
  using sortedLevel_descending_stable [of l k]
  by (simp add: orderedSelectedHobbies_def getAllHobbiesInOrder_preorder preorder_sortByScore)

text \<open>
  Sports, Guitar and Piano toggled in that order, or read from storage in another: the
  ordered selection is Piano, Guitar, Sports. Piano (8) comes before Guitar (5) although
  the data lists Guitar first, and both come before Sports because their parent Music
  (10) does.
\<close>

theorem orderedSelectedHobbies_canonical_witness:
  "set (selectedHobbies (initialState [''Guitar'', ''Sports'', ''Piano'']))
     = set (selectedHobbies (initialState [''Sports'', ''Guitar'', ''Piano'']))
   \<and> orderedSelectedHobbies demo (initialState [''Sports'', ''Guitar'', ''Piano''])
       = [''Piano'', ''Guitar'', ''Sports'']
   \<and> orderedSelectedHobbies demo (initialState [''Guitar'', ''Sports'', ''Piano''])
       = [''Piano'', ''Guitar'', ''Sports'']"
proof -
  have same: "set (selectedHobbies (initialState [''Guitar'', ''Sports'', ''Piano'']))
     = set (selectedHobbies (initialState [''Sports'', ''Guitar'', ''Piano'']))"
    by (auto simp: initialState_def)
  have val: "filter (\<lambda>n. n \<in> set (selectedHobbies (initialState [''Sports'', ''Guitar'', ''Piano''])))
               [''Music'', ''Piano'', ''Guitar'', ''Sports''] = [''Piano'', ''Guitar'', ''Sports'']"
    by (simp add: initialState_def)
  from orderedSelectedHobbies_canonical [of demo "initialState [''Sports'', ''Guitar'', ''Piano'']"]
       same val
  show ?thesis by (simp add: flatten_demo)
qed

section \<open>Selection counts\<close>

lemma foldl_counts:
  "foldl (\<lambda>acc subHobby.
            \<lparr>selected = selected acc + (if name subHobby \<in> S then 1 else 0),
             total = total acc + 1\<rparr>) acc its
   = \<lparr>selected = selected acc + length (filter (\<lambda>h. name h \<in> S) its),
      total = total acc + length its\<rparr>"
  by (induction its arbitrary: acc) simp_all

text \<open>
  Claim C7. The counts of a node range over its \<open>items\<close> only: \<open>total\<close> is the number of
  immediate children and \<open>selected\<close> the number of immediate children whose name is in the
  selection; the children's own items are never looked at. A node without \<open>items\<close> has the
  counts 0 and 0.
\<close>

theorem getSelectedCount_immediate_children:
  "getSelectedCount st hobby =
     (case items hobby of
        None \<Rightarrow> \<lparr>selected = 0, total = 0\<rparr>
      | Some its \<Rightarrow>
          \<lparr>selected = length (filter (\<lambda>h. name h \<in> set (selectedHobbies st)) its),
           total = length its\<rparr>)"
  unfolding getSelectedCount_def foldl_counts by (simp split: option.split)

text \<open>
  Art has three children, of which Oil and Ink are selected. Under Crafts the two are
  grandchildren and do not count: Crafts has one child, Art, which is not selected. The
  leaf Chess has the counts 0 and 0.
\<close>

theorem getSelectedCount_immediate_children_witness:
  "getSelectedCount (initialState [''Ink'', ''Oil''])
     (Hobby ''Art'' (Some [Hobby ''Oil'' None 1, Hobby ''Ink'' None 1, Hobby ''Clay'' None 4]) 9)
     = \<lparr>selected = 2, total = 3\<rparr>
   \<and> getSelectedCount (initialState [''Ink'', ''Oil''])
     (Hobby ''Crafts'' (Some [Hobby ''Art'' (Some [Hobby ''Oil'' None 1, Hobby ''Ink'' None 1]) 9]) 2)
     = \<lparr>selected = 0, total = 1\<rparr>
   \<and> getSelectedCount (initialState [''Ink'', ''Oil'']) (Hobby ''Chess'' None 3)
     = \<lparr>selected = 0, total = 0\<rparr>"
  using getSelectedCount_immediate_children [of "initialState [''Ink'', ''Oil'']"
          "Hobby ''Art'' (Some [Hobby ''Oil'' None 1, Hobby ''Ink'' None 1, Hobby ''Clay'' None 4]) 9"]
        getSelectedCount_immediate_children [of "initialState [''Ink'', ''Oil'']"
          "Hobby ''Crafts'' (Some [Hobby ''Art'' (Some [Hobby ''Oil'' None 1, Hobby ''Ink'' None 1]) 9]) 2"]
        getSelectedCount_immediate_children [of "initialState [''Ink'', ''Oil'']" "Hobby ''Chess'' None 3"]
  by (simp add: initialState_def)

section \<open>Disclosure: show more\<close>

text \<open>
  Under a key that is not the name of a member of \<open>Object.prototype\<close>, and that holds
  a count or nothing, the disclosure is as the contract has it: 5 when nothing was written,
  5 more with every \<open>showMore\<close>, the other keys and the rest of the state untouched.
\<close>

lemma visibleCount_unset:
  "key \<notin> set objectPrototypeMembers \<Longrightarrow> expandedSections st key = None
   \<Longrightarrow> visibleCount st key = Count 5"
  by (simp add: visibleCount_def getProperty_def)

lemma visibleCount_showMore:
  "visibleCount st key = Count c \<Longrightarrow> visibleCount (showMore key st) key = Count (c + 5)"
  by (simp add: visibleCount_def showMore_def getProperty_def)

lemma visibleCount_showMore_pow:
  "visibleCount st key = Count c
   \<Longrightarrow> visibleCount ((showMore key ^^ n) st) key = Count (c + 5 * n)"
  by (induction n) (simp_all add: visibleCount_showMore)

lemma showMore_other_keys:
  "other \<noteq> key \<Longrightarrow> expandedSections (showMore key st) other = expandedSections st other"
  by (simp add: showMore_def)

lemma showMore_rest:
  "selectedHobbies (showMore key st) = selectedHobbies st"
  "searchTerm (showMore key st) = searchTerm st"
  "filteredHobbies (showMore key st) = filteredHobbies st"
  by (simp_all add: showMore_def)

lemma showMore_from_unset:
  "key \<notin> set objectPrototypeMembers \<Longrightarrow> expandedSections st key = None
   \<Longrightarrow> visibleCount ((showMore key ^^ n) st) key = Count (5 + 5 * n)"
  by (simp add: visibleCount_unset visibleCount_showMore_pow)

lemma showMore_root:
  "visibleCount (initialState []) (pathKey '''') = Count 5
   \<and> visibleCount (showMore ''root'' (initialState [])) ''root'' = Count 10
   \<and> visibleCount (showMore ''root'' (showMore ''root'' (initialState []))) ''root'' = Count 15
   \<and> expandedSections (showMore ''root'' (initialState [])) ''Music'' = None"
  by (simp add: visibleCount_def showMore_def getProperty_def initialState_def pathKey_def
        objectPrototypeMembers_def)

text \<open>
  Claim C8 says this of every path key. The path key of a top-level hobby is its name, and
  under the key \<open>constructor\<close> the code reads the inherited member of the empty object:
  the visible count of a key that was never set is that function and not 5. Of the seven
  children of such a hobby none is rendered, and the button that would call \<open>showMore\<close>
  is not offered either. A call of \<open>showMore\<close> on the key stores a string and not 10,
  and the next one a longer string and not 15.
\<close>

theorem showMore_inherited_key:
  "expandedSections (initialState []) ''constructor'' = None
   \<and> pathKey ''constructor'' = ''constructor''
   \<and> visibleCount (initialState []) ''constructor'' = Inherited ''constructor''
   \<and> visibleCount (initialState []) ''constructor'' \<noteq> Count 5
   \<and> visibleItems (initialState []) ''constructor''
         [Hobby ''a'' None 7, Hobby ''b'' None 6, Hobby ''c'' None 5, Hobby ''d'' None 4,
          Hobby ''e'' None 3, Hobby ''f'' None 2, Hobby ''g'' None 1] = []
   \<and> \<not> showMoreOffered (initialState []) ''constructor''
         [Hobby ''a'' None 7, Hobby ''b'' None 6, Hobby ''c'' None 5, Hobby ''d'' None 4,
          Hobby ''e'' None 3, Hobby ''f'' None 2, Hobby ''g'' None 1]
   \<and> visibleCount (showMore ''constructor'' (initialState [])) ''constructor''
       = Text ''constructor'' 0
   \<and> visibleCount (showMore ''constructor'' (showMore ''constructor'' (initialState [])))
         ''constructor'' = Text ''constructor'' 1"
  by (simp add: visibleCount_def showMore_def getProperty_def initialState_def pathKey_def
        objectPrototypeMembers_def visibleItems_def showMoreOffered_def)

section \<open>The selection as a set\<close>

text \<open>The events the component reacts to, and the handler of each.\<close>

datatype event =
  Toggle string
  | ClearAll
  | Search string
  | ShowMore string
  | ClickOutside

fun handle :: "Hobby list \<Rightarrow> component_state \<Rightarrow> event \<Rightarrow> component_state" where
  "handle data st (Toggle hobby) = toggleHobby hobby st"
| "handle data st ClearAll = clearAllHobbies st"
| "handle data st (Search v) = handleSearch data v st"
| "handle data st (ShowMore hobbyPath) = showMore hobbyPath st"
| "handle data st ClickOutside = handleClickOutside st"

lemma distinct_handle:
  "distinct (selectedHobbies st) \<Longrightarrow> distinct (selectedHobbies (handle data st e))"
  by (cases e)
     (simp_all add: toggleHobby_def clearAllHobbies_def handleSearch_def showMore_def
        handleClickOutside_def Let_def)

lemma distinct_handle_all:
  "distinct (selectedHobbies st) \<Longrightarrow> distinct (selectedHobbies (foldl (handle data) st es))"
  by (induction es arbitrary: st) (simp_all add: distinct_handle)

text \<open>
  Claim C10. On a selection list without duplicates, \<open>toggleHobby x\<close> removes \<open>x\<close> when it
  is present (every other name stays, in order, and \<open>x\<close> is gone) and appends \<open>x\<close> once
  when it is absent; \<open>clearAllHobbies\<close> leaves the empty list. The list has no duplicates
  afterwards, and none after any sequence of events of the component.
\<close>

theorem selection_stays_duplicate_free:
  assumes "distinct (selectedHobbies st)"
  shows "(x \<in> set (selectedHobbies st) \<longrightarrow>
            selectedHobbies (toggleHobby x st) = removeAll x (selectedHobbies st)
            \<and> x \<notin> set (selectedHobbies (toggleHobby x st)))
         \<and> (x \<notin> set (selectedHobbies st) \<longrightarrow>
            selectedHobbies (toggleHobby x st) = selectedHobbies st @ [x]
            \<and> count_list (selectedHobbies (toggleHobby x st)) x = 1)
         \<and> set (selectedHobbies (toggleHobby x st))
            = (if x \<in> set (selectedHobbies st) then set (selectedHobbies st) - {x}
               else insert x (set (selectedHobbies st)))
         \<and> selectedHobbies (clearAllHobbies st) = []
         \<and> distinct (selectedHobbies (toggleHobby x st))
         \<and> distinct (selectedHobbies (clearAllHobbies st))
         \<and> distinct (selectedHobbies (foldl (handle data) st es))"
proof -
  have filt: "filter (\<lambda>h. h \<noteq> x) xs = removeAll x xs" for xs :: "string list"
    by (induction xs) auto
  have absent: "count_list (xs @ [x]) x = 1" if "x \<notin> set xs" for xs :: "string list"
    using that by (induction xs) auto
  show ?thesis
    using assms distinct_handle_all [OF assms, of data es]
    by (auto simp: toggleHobby_def clearAllHobbies_def filt absent distinct_removeAll)
qed

text \<open>
  Piano is toggled off, Chess is toggled on, and a run of events from the empty selection
  ends with Sports alone.
\<close>

theorem selection_stays_duplicate_free_witness:
  "distinct (selectedHobbies (initialState [''Piano'', ''Sports'']))
   \<and> selectedHobbies (toggleHobby ''Piano'' (initialState [''Piano'', ''Sports''])) = [''Sports'']
   \<and> selectedHobbies (toggleHobby ''Chess'' (initialState [''Piano'', ''Sports'']))
       = [''Piano'', ''Sports'', ''Chess'']
   \<and> selectedHobbies (clearAllHobbies (initialState [''Piano'', ''Sports''])) = []
   \<and> distinct (selectedHobbies (foldl (handle demo) (initialState [''Piano'', ''Sports''])
        [Toggle ''Piano'', Search ''mu'', Toggle ''Piano'', ShowMore ''root'', Toggle ''Sports'']))"
proof -
  have d: "distinct (selectedHobbies (initialState [''Piano'', ''Sports'']))"
    by (simp add: initialState_def)
  have off: "selectedHobbies (toggleHobby ''Piano'' (initialState [''Piano'', ''Sports''])) = [''Sports'']"
    using selection_stays_duplicate_free [OF d, of "''Piano''" demo "[]"]
    by (simp add: initialState_def)
  have on: "selectedHobbies (toggleHobby ''Chess'' (initialState [''Piano'', ''Sports'']))
       = [''Piano'', ''Sports'', ''Chess'']"
    using selection_stays_duplicate_free [OF d, of "''Chess''" demo "[]"]
    by (simp add: initialState_def)
  have clear: "selectedHobbies (clearAllHobbies (initialState [''Piano'', ''Sports''])) = []"
    using selection_stays_duplicate_free [OF d, of "''Chess''" demo "[]"] by blast
  have run: "distinct (selectedHobbies (foldl (handle demo) (initialState [''Piano'', ''Sports''])
        [Toggle ''Piano'', Search ''mu'', Toggle ''Piano'', ShowMore ''root'', Toggle ''Sports'']))"
    using selection_stays_duplicate_free [OF d, of "''Chess''" demo
        "[Toggle ''Piano'', Search ''mu'', Toggle ''Piano'', ShowMore ''root'', Toggle ''Sports'']"]
    by blast
  from d off on clear run show ?thesis by blast
qed

section \<open>Category colours\<close>

text \<open>The palette: ten pastel colours.\<close>

definition baseColors :: "string list" where
  "baseColors =
     [''#FFD5D5'', ''#D5FFD5'', ''#D5D5FF'', ''#FFD5FF'', ''#FFFFC4'',
      ''#FFD5C4'', ''#C4FFD5'', ''#D5FFFF'', ''#FFC4C4'', ''#D5C4FF'']"

subsection \<open>The built-ins that \<open>generateSimilarColor\<close> calls\<close>

text \<open>\<open>s.slice(a, b)\<close> for \<open>0 \<le> a \<le> b\<close>.\<close>

definition slice :: "nat \<Rightarrow> nat \<Rightarrow> string \<Rightarrow> string" where
  "slice a b s = take (b - a) (drop a s)"

text \<open>
  \<open>parseInt(s, 16)\<close>: leading white space is skipped, then a sign and a prefix \<open>0x\<close> are
  read if they are there, then the longest run of hexadecimal digits. Without a digit the
  result is \<open>NaN\<close>, which is \<open>None\<close> here.
\<close>

definition hexDigit :: "char \<Rightarrow> nat option" where
  "hexDigit c =
     (let n = of_char c :: nat
      in if 48 \<le> n \<and> n \<le> 57 then Some (n - 48)
         else if 97 \<le> n \<and> n \<le> 102 then Some (n - 87)
         else if 65 \<le> n \<and> n \<le> 70 then Some (n - 55)
         else None)"

definition parseInt16 :: "string \<Rightarrow> int option" where
  "parseInt16 s =
     (let s1 = dropWhile isWhiteSpace s;
          negative = (take 1 s1 = ''-'');
          s2 = (if take 1 s1 = ''-'' \<or> take 1 s1 = ''+'' then drop 1 s1 else s1);
          s3 = (if take 2 s2 = ''0x'' \<or> take 2 s2 = ''0X'' then drop 2 s2 else s2);
          ds = takeWhile (\<lambda>c. hexDigit c \<noteq> None) s3;
          v = foldl (\<lambda>acc c. 16 * acc + int (case hexDigit c of None \<Rightarrow> 0 | Some d \<Rightarrow> d)) 0 ds
      in if ds = [] then None else Some (if negative then - v else v))"

text \<open>
  \<open>Math.random()\<close> is a sequence of draws: \<open>rnd 0\<close> is the next one. A draw is taken
  as a real number; the rounding of the product in floating point is left out (it cannot
  reach 30: the largest double below 1, times 30, rounds below 30). The offset
  \<^verbatim>\<open>Math.floor(Math.random() * 30) - 15\<close> of one draw:
\<close>

definition variation :: "real \<Rightarrow> int" where
  "variation draw = \<lfloor>draw * 30\<rfloor> - 15"

text \<open>
  \<^verbatim>\<open>const clamp = (n: number) => Math.min(255, Math.max(0, n));\<close>
  A number is an integer or \<open>NaN\<close>; sums, \<open>Math.max\<close> and \<open>Math.min\<close> of \<open>NaN\<close> are
  \<open>NaN\<close>.
\<close>

definition clamp :: "int option \<Rightarrow> int option" where
  "clamp n = map_option (\<lambda>v. min 255 (max 0 v)) n"

definition plus_number :: "int option \<Rightarrow> int \<Rightarrow> int option" where
  "plus_number n v = map_option (\<lambda>r. r + v) n"

text \<open>\<open>n.toString(16)\<close> and \<open>s.padStart(2, "0")\<close>.\<close>

definition hexChar :: "nat \<Rightarrow> char" where
  "hexChar d = (if d < 10 then char_of (48 + d) else char_of (87 + d))"

fun hexString :: "nat \<Rightarrow> string" where
  "hexString n = (if n < 16 then [hexChar n] else hexString (n div 16) @ [hexChar (n mod 16)])"

declare hexString.simps [simp del]

definition toString16 :: "int option \<Rightarrow> string" where
  "toString16 n =
     (case n of
        None \<Rightarrow> ''NaN''
      | Some v \<Rightarrow> if v < 0 then CHR ''-'' # hexString (nat (- v)) else hexString (nat v))"

definition padStart2 :: "string \<Rightarrow> string" where
  "padStart2 s = replicate (2 - length s) CHR ''0'' @ s"

subsection \<open>generateSimilarColor and getCategoryColor\<close>

text \<open>
  \<^verbatim>\<open>
  const generateSimilarColor = (index: number): string => {
    const baseColor = baseColors[index % baseColors.length];
    const r = parseInt(baseColor.slice(1, 3), 16);
    const g = parseInt(baseColor.slice(3, 5), 16);
    const b = parseInt(baseColor.slice(5, 7), 16);
    const variation = () => Math.floor(Math.random() * 30) - 15;
    const clamp = (n: number) => Math.min(255, Math.max(0, n));
    const newR = clamp(r + variation());
    const newG = clamp(g + variation());
    const newB = clamp(b + variation());
    return `#${[newR, newG, newB].map((n) => n.toString(16).padStart(2, "0")).join("")}`;
  };
  \<close>
  The function takes the sequence of draws and returns the colour with the sequence that is
  left: three draws are used, for red, green and blue in that order.
\<close>

definition generateSimilarColor :: "nat \<Rightarrow> (nat \<Rightarrow> real) \<Rightarrow> string \<times> (nat \<Rightarrow> real)" where
  "generateSimilarColor index rnd =
     (let baseColor = baseColors ! (index mod length baseColors);
          r = parseInt16 (slice 1 3 baseColor);
          g = parseInt16 (slice 3 5 baseColor);
          b = parseInt16 (slice 5 7 baseColor);
          newR = clamp (plus_number r (variation (rnd 0)));
          newG = clamp (plus_number g (variation (rnd 1)));
          newB = clamp (plus_number b (variation (rnd 2)))
      in (CHR ''#'' # concat (map (\<lambda>n. padStart2 (toString16 n)) [newR, newG, newB]),
          \<lambda>k. rnd (k + 3)))"

text \<open>
  The module's state: the map \<open>categoryColorsMap\<close> and the draws \<open>Math.random\<close> has yet
  to return.
  \<^verbatim>\<open>
  const getCategoryColor = (categoryName: string, index: number): string => {
    if (!categoryColorsMap.has(categoryName)) {
      const color = index < baseColors.length ? baseColors[index] : generateSimilarColor(index);
      categoryColorsMap.set(categoryName, color);
    }
    return categoryColorsMap.get(categoryName) ?? "#FFFFFF";
  };
  \<close>
  The index is an array index, a natural number.
\<close>

record module_state =
  categoryColorsMap :: "string \<rightharpoonup> string"
  random :: "nat \<Rightarrow> real"

definition getCategoryColor :: "string \<Rightarrow> nat \<Rightarrow> module_state \<Rightarrow> string \<times> module_state" where
  "getCategoryColor categoryName index m =
     (let m1 =
            (if categoryColorsMap m categoryName = None
             then
               let (color, rnd) =
                     (if index < length baseColors then (baseColors ! index, random m)
                      else generateSimilarColor index (random m))
               in m\<lparr>categoryColorsMap := (categoryColorsMap m)(categoryName \<mapsto> color),
                    random := rnd\<rparr>
             else m)
      in (case categoryColorsMap m1 categoryName of None \<Rightarrow> ''#FFFFFF'' | Some color \<Rightarrow> color,
          m1))"

text \<open>
  \<^verbatim>\<open>
  const initializeCategoryColors = () => {
    const sortedData = sortByScore(data);
    sortedData.forEach((hobby, index) => { getCategoryColor(hobby.name, index); });
  };
  \<close>
\<close>

definition initializeCategoryColors :: "Hobby list \<Rightarrow> module_state \<Rightarrow> module_state" where
  "initializeCategoryColors data m =
     (let sortedData = sortByScore data
      in foldl (\<lambda>m1 (index, hobby). snd (getCategoryColor (name hobby) index m1))
           m (enumerate 0 sortedData))"

text \<open>The module at process start: an empty map.\<close>

definition moduleStart :: "(nat \<Rightarrow> real) \<Rightarrow> module_state" where
  "moduleStart rnd = \<lparr>categoryColorsMap = Map.empty, random = rnd\<rparr>"

subsection \<open>Hexadecimal digits, written and read back\<close>

lemma of_char_hexChar:
  "d < 16 \<Longrightarrow> (of_char (hexChar d) :: nat) = (if d < 10 then 48 + d else 87 + d)"
  by (simp add: hexChar_def)

lemma hexDigit_hexChar: "d < 16 \<Longrightarrow> hexDigit (hexChar d) = Some d"
  by (simp add: hexDigit_def of_char_hexChar Let_def)

lemma hexChar_not_space: "d < 16 \<Longrightarrow> \<not> isWhiteSpace (hexChar d)"
  by (simp add: isWhiteSpace_def of_char_hexChar)

lemma hexChar_not_sign:
  assumes "d < 16"
  shows "hexChar d \<noteq> CHR ''-''" and "hexChar d \<noteq> CHR ''+''"
    and "hexChar d \<noteq> CHR ''x''" and "hexChar d \<noteq> CHR ''X''"
proof -
  have "(of_char (hexChar d) :: nat) \<noteq> of_char CHR ''-''"
    "(of_char (hexChar d) :: nat) \<noteq> of_char CHR ''+''"
    "(of_char (hexChar d) :: nat) \<noteq> of_char CHR ''x''"
    "(of_char (hexChar d) :: nat) \<noteq> of_char CHR ''X''"
    using assms by (simp_all add: of_char_hexChar)
  then show "hexChar d \<noteq> CHR ''-''" and "hexChar d \<noteq> CHR ''+''"
    and "hexChar d \<noteq> CHR ''x''" and "hexChar d \<noteq> CHR ''X''"
    by auto
qed

lemma parseInt16_two:
  assumes "a < 16" and "b < 16"
  shows "parseInt16 [hexChar a, hexChar b] = Some (int (16 * a + b))"
  using assms
  by (simp add: parseInt16_def hexChar_not_space hexChar_not_sign hexDigit_hexChar)

lemma char_of_48: "char_of (48::nat) = CHR ''0''"
  by code_simp

lemma padStart2_hexString:
  assumes "n < 256"
  shows "padStart2 (hexString n) = [hexChar (n div 16), hexChar (n mod 16)]"
proof (cases "n < 16")
  case True
  then show ?thesis by (simp add: hexString.simps padStart2_def hexChar_def char_of_48)
next
  case False
  from assms have "n div 16 < 16" by simp
  with False show ?thesis
    by (simp add: hexString.simps [of n] hexString.simps [of "n div 16"] padStart2_def)
qed

lemma channel_roundtrip:
  assumes "0 \<le> v" and "v \<le> 255"
  shows "parseInt16 (padStart2 (toString16 (Some v))) = Some v"
    and "length (padStart2 (toString16 (Some v))) = 2"
    and "list_all (\<lambda>c. hexDigit c \<noteq> None) (padStart2 (toString16 (Some v)))"
proof -
  from assms have n: "nat v < 256" by simp
  then have d: "nat v div 16 < 16" "nat v mod 16 < 16" by simp_all
  have enc: "padStart2 (toString16 (Some v)) = [hexChar (nat v div 16), hexChar (nat v mod 16)]"
    using assms padStart2_hexString [OF n] by (simp add: toString16_def)
  show "parseInt16 (padStart2 (toString16 (Some v))) = Some v"
    using assms by (simp add: enc parseInt16_two [OF d])
  show "length (padStart2 (toString16 (Some v))) = 2" by (simp add: enc)
  show "list_all (\<lambda>c. hexDigit c \<noteq> None) (padStart2 (toString16 (Some v)))"
    by (simp add: enc hexDigit_hexChar d)
qed


lemma parseInt16_palette:
  "parseInt16 ''FF'' = Some 255" "parseInt16 ''D5'' = Some 213" "parseInt16 ''C4'' = Some 196"
  by (simp_all add: parseInt16_def isWhiteSpace_def hexDigit_def)

lemma palette_channels:
  "map (\<lambda>c. (parseInt16 (slice 1 3 c), parseInt16 (slice 3 5 c), parseInt16 (slice 5 7 c))) baseColors
   = [(Some 255, Some 213, Some 213), (Some 213, Some 255, Some 213), (Some 213, Some 213, Some 255),
      (Some 255, Some 213, Some 255), (Some 255, Some 255, Some 196), (Some 255, Some 213, Some 196),
      (Some 196, Some 255, Some 213), (Some 213, Some 255, Some 255), (Some 255, Some 196, Some 196),
      (Some 213, Some 196, Some 255)]"
  by (simp add: baseColors_def slice_def parseInt16_palette)

text \<open>Every palette entry decodes to three channels between 0 and 255.\<close>

definition validChannels :: "string \<Rightarrow> bool" where
  "validChannels c =
     (\<exists>r g b. parseInt16 (slice 1 3 c) = Some r \<and> parseInt16 (slice 3 5 c) = Some g
        \<and> parseInt16 (slice 5 7 c) = Some b
        \<and> 0 \<le> r \<and> r \<le> 255 \<and> 0 \<le> g \<and> g \<le> 255 \<and> 0 \<le> b \<and> b \<le> 255)"

lemma palette_valid: "list_all validChannels baseColors"
  by (simp add: baseColors_def validChannels_def slice_def parseInt16_palette)


lemma length_baseColors [simp]: "length baseColors = 10"
  by (simp add: baseColors_def)

lemma variation_range:
  assumes "0 \<le> d" and "d < 1"
  shows "- 15 \<le> variation d" and "variation d \<le> 14"
proof -
  from assms have "0 \<le> d * 30" and "d * 30 < 30" by simp_all
  then have "0 \<le> \<lfloor>d * 30\<rfloor>" and "\<lfloor>d * 30\<rfloor> < 30"
    by (simp_all add: floor_less_iff)
  then show "- 15 \<le> variation d" and "variation d \<le> 14"
    by (simp_all add: variation_def)
qed

lemma slice_channels:
  assumes "length a = 2" and "length b = 2" and "length c = 2"
  shows "slice 1 3 (x # a @ b @ c) = a" and "slice 3 5 (x # a @ b @ c) = b"
    and "slice 5 7 (x # a @ b @ c) = c"
  using assms by (simp_all add: slice_def)

text \<open>
  Claim C5. For an index at or beyond the palette size and draws in [0, 1), a category that
  has no colour yet gets the colour that \<open>generateSimilarColor\<close> makes. Its seed is
  \<open>baseColors[index mod 10]\<close>, whose three channels \<open>r\<close>, \<open>g\<close>, \<open>b\<close> are read by
  \<open>parseInt\<close>. The result is \<open>#\<close> followed by six hexadecimal digits, and read back the
  same way its channels are \<open>r\<close>, \<open>g\<close> and \<open>b\<close> plus the offset of the first, second
  and third draw, each clamped to [0, 255]. Every offset lies in [-15, 15] (it is
  \<open>floor(draw * 30) - 15\<close>, so 15 itself is never reached). The digits are written in
  lower case, the palette's in upper case.
\<close>

theorem generateSimilarColor_perturbs_seed:
  assumes "length baseColors \<le> index" and "\<forall>k. 0 \<le> rnd k \<and> rnd k < 1"
  shows "\<exists>r g b.
      parseInt16 (slice 1 3 (baseColors ! (index mod 10))) = Some r
    \<and> parseInt16 (slice 3 5 (baseColors ! (index mod 10))) = Some g
    \<and> parseInt16 (slice 5 7 (baseColors ! (index mod 10))) = Some b
    \<and> (let color = fst (generateSimilarColor index rnd);
           newR = min 255 (max 0 (r + variation (rnd 0)));
           newG = min 255 (max 0 (g + variation (rnd 1)));
           newB = min 255 (max 0 (b + variation (rnd 2)))
       in length color = 7 \<and> hd color = CHR ''#''
          \<and> list_all (\<lambda>c. hexDigit c \<noteq> None) (tl color)
          \<and> parseInt16 (slice 1 3 color) = Some newR
          \<and> parseInt16 (slice 3 5 color) = Some newG
          \<and> parseInt16 (slice 5 7 color) = Some newB)
    \<and> (\<forall>k. - 15 \<le> variation (rnd k) \<and> variation (rnd k) \<le> 15)
    \<and> snd (generateSimilarColor index rnd) = (\<lambda>k. rnd (k + 3))
    \<and> (\<forall>m categoryName. categoryColorsMap m categoryName = None \<longrightarrow>
          fst (getCategoryColor categoryName index m) = fst (generateSimilarColor index (random m)))"
proof -
  let ?seed = "baseColors ! (index mod 10)"
  have "?seed \<in> set baseColors" by simp
  with palette_valid have "validChannels ?seed" by (simp add: list_all_iff)
  then obtain r g b where
    rgb: "parseInt16 (slice 1 3 ?seed) = Some r" "parseInt16 (slice 3 5 ?seed) = Some g"
      "parseInt16 (slice 5 7 ?seed) = Some b"
    unfolding validChannels_def by blast
  define newR where "newR = min 255 (max 0 (r + variation (rnd 0)))"
  define newG where "newG = min 255 (max 0 (g + variation (rnd 1)))"
  define newB where "newB = min 255 (max 0 (b + variation (rnd 2)))"
  define hR where "hR = padStart2 (toString16 (Some newR))"
  define hG where "hG = padStart2 (toString16 (Some newG))"
  define hB where "hB = padStart2 (toString16 (Some newB))"
  have rangeR: "0 \<le> newR" "newR \<le> 255" by (simp_all add: newR_def)
  have rangeG: "0 \<le> newG" "newG \<le> 255" by (simp_all add: newG_def)
  have rangeB: "0 \<le> newB" "newB \<le> 255" by (simp_all add: newB_def)
  note cR = channel_roundtrip [OF rangeR, folded hR_def]
  note cG = channel_roundtrip [OF rangeG, folded hG_def]
  note cB = channel_roundtrip [OF rangeB, folded hB_def]
  have color: "fst (generateSimilarColor index rnd) = CHR ''#'' # hR @ hG @ hB"
    unfolding generateSimilarColor_def Let_def length_baseColors rgb
    by (simp add: clamp_def plus_number_def hR_def hG_def hB_def newR_def newG_def newB_def)
  have shape: "length (CHR ''#'' # hR @ hG @ hB) = 7"
    "list_all (\<lambda>c. hexDigit c \<noteq> None) (hR @ hG @ hB)"
    using cR cG cB by simp_all
  have decoded: "parseInt16 (slice 1 3 (CHR ''#'' # hR @ hG @ hB)) = Some newR"
    "parseInt16 (slice 3 5 (CHR ''#'' # hR @ hG @ hB)) = Some newG"
    "parseInt16 (slice 5 7 (CHR ''#'' # hR @ hG @ hB)) = Some newB"
    unfolding slice_channels [OF cR(2) cG(2) cB(2)] by (rule cR(1), rule cG(1), rule cB(1))
  have offsets: "- 15 \<le> variation (rnd k) \<and> variation (rnd k) \<le> 15" for k
    using variation_range [of "rnd k"] assms(2) by (simp add: order_trans [of _ 14 15])
  have rest: "snd (generateSimilarColor index rnd) = (\<lambda>k. rnd (k + 3))"
    by (simp add: generateSimilarColor_def Let_def)
  have fresh: "fst (getCategoryColor categoryName index m) = fst (generateSimilarColor index (random m))"
    if "categoryColorsMap m categoryName = None" for m categoryName
    using that assms(1) by (simp add: getCategoryColor_def Let_def split: prod.split)
  show ?thesis
    apply (rule exI [of _ r], rule exI [of _ g], rule exI [of _ b])
    using rgb color shape decoded offsets rest fresh
    unfolding newR_def newG_def newB_def Let_def
    by simp
qed

text \<open>
  The theorem at index 10 with the draws 29/30, 0, 1/2: the seed FF D5 D5 (255, 213, 213)
  gets the offsets 14, -15 and 0, so the colour is ff c6 d5 (255 after clamping, 198, 213).
  It is the colour that Chess, not yet in the map, gets at index 10.
\<close>

definition demoDraws :: "nat \<Rightarrow> real" where
  "demoDraws k = (if k = 0 then 29 / 30 else if k = 1 then 0 else 1 / 2)"

theorem generateSimilarColor_perturbs_seed_witness:
  "length baseColors \<le> 10
   \<and> variation (demoDraws 0) = 14 \<and> variation (demoDraws 1) = - 15 \<and> variation (demoDraws 2) = 0
   \<and> fst (generateSimilarColor 10 demoDraws) = ''#ffc6d5''
   \<and> parseInt16 (slice 1 3 (fst (generateSimilarColor 10 demoDraws))) = Some 255
   \<and> parseInt16 (slice 3 5 (fst (generateSimilarColor 10 demoDraws))) = Some 198
   \<and> parseInt16 (slice 5 7 (fst (generateSimilarColor 10 demoDraws))) = Some 213
   \<and> categoryColorsMap (moduleStart demoDraws) ''Chess'' = None
   \<and> fst (getCategoryColor ''Chess'' 10 (moduleStart demoDraws)) = ''#ffc6d5''"
proof -
  have idx: "length baseColors \<le> 10" by simp
  have draws: "\<forall>k. 0 \<le> demoDraws k \<and> demoDraws k < 1" by (simp add: demoDraws_def)
  have v: "variation (demoDraws 0) = 14" "variation (demoDraws 1) = - 15" "variation (demoDraws 2) = 0"
    by (simp_all add: variation_def demoDraws_def)
  have seed: "parseInt16 (slice 1 3 (baseColors ! (10 mod 10))) = Some 255"
    "parseInt16 (slice 3 5 (baseColors ! (10 mod 10))) = Some 213"
    "parseInt16 (slice 5 7 (baseColors ! (10 mod 10))) = Some 213"
    by (simp_all add: baseColors_def slice_def parseInt16_palette)
  have digits: "hexChar 15 = CHR ''f''" "hexChar 12 = CHR ''c''" "hexChar 6 = CHR ''6''"
    "hexChar 13 = CHR ''d''" "hexChar 5 = CHR ''5''"
    by code_simp+
  have color: "fst (generateSimilarColor 10 demoDraws) = ''#ffc6d5''"
    unfolding generateSimilarColor_def Let_def length_baseColors seed v
    by (simp add: clamp_def plus_number_def toString16_def padStart2_def hexString.simps
        digits)
  from generateSimilarColor_perturbs_seed [OF idx draws] seed v
  have "parseInt16 (slice 1 3 (fst (generateSimilarColor 10 demoDraws))) = Some 255"
    and "parseInt16 (slice 3 5 (fst (generateSimilarColor 10 demoDraws))) = Some 198"
    and "parseInt16 (slice 5 7 (fst (generateSimilarColor 10 demoDraws))) = Some 213"
    by (auto simp: Let_def)
  moreover have unset: "categoryColorsMap (moduleStart demoDraws) ''Chess'' = None"
    by (simp add: moduleStart_def)
  moreover have "fst (getCategoryColor ''Chess'' 10 (moduleStart demoDraws)) = ''#ffc6d5''"
  proof -
    from generateSimilarColor_perturbs_seed [OF idx draws] unset
    have "fst (getCategoryColor ''Chess'' 10 (moduleStart demoDraws))
          = fst (generateSimilarColor 10 (random (moduleStart demoDraws)))"
      by blast
    with color show ?thesis by (simp add: moduleStart_def)
  qed
  ultimately show ?thesis using idx v color by simp
qed

subsection \<open>The colour map only grows\<close>

text \<open>
  A run of calls of \<open>getCategoryColor\<close>, each with its category name and index, whatever
  the callers are; the results are dropped and the module's state is passed on.
\<close>

definition calls :: "(string \<times> nat) list \<Rightarrow> module_state \<Rightarrow> module_state" where
  "calls cs m = foldl (\<lambda>m1 (categoryName, index). snd (getCategoryColor categoryName index m1)) m cs"

lemma calls_Nil [simp]: "calls [] m = m"
  by (simp add: calls_def)

lemma calls_Cons [simp]: "calls ((n, i) # cs) m = calls cs (snd (getCategoryColor n i m))"
  by (simp add: calls_def)

lemma getCategoryColor_known:
  "categoryColorsMap m n = Some c \<Longrightarrow> getCategoryColor n j m = (c, m)"
  by (simp add: getCategoryColor_def)

lemma getCategoryColor_stores:
  "categoryColorsMap (snd (getCategoryColor n i m)) n = Some (fst (getCategoryColor n i m))"
  by (cases "categoryColorsMap m n") (auto simp: getCategoryColor_def Let_def split: prod.split)

lemma getCategoryColor_keeps:
  "categoryColorsMap m k = Some v \<Longrightarrow> categoryColorsMap (snd (getCategoryColor n i m)) k = Some v"
  by (cases "categoryColorsMap m n") (auto simp: getCategoryColor_def Let_def split: prod.split)

lemma calls_keeps:
  "categoryColorsMap m k = Some v \<Longrightarrow> categoryColorsMap (calls cs m) k = Some v"
proof (induction cs arbitrary: m)
  case Nil
  then show ?case by simp
next
  case (Cons c cs)
  obtain n i where c: "c = (n, i)" by (cases c)
  from Cons.prems have "categoryColorsMap (snd (getCategoryColor n i m)) k = Some v"
    by (rule getCategoryColor_keeps)
  then show ?case unfolding c calls_Cons by (rule Cons.IH)
qed

lemma getCategoryColor_palette:
  assumes "categoryColorsMap m n = None" and "i < length baseColors"
  shows "snd (getCategoryColor n i m) = m\<lparr>categoryColorsMap := (categoryColorsMap m)(n \<mapsto> baseColors ! i)\<rparr>"
  using assms by (simp add: getCategoryColor_def)

text \<open>
  Claim C6. Once \<open>getCategoryColor\<close> has been called for a name, with any index, every
  later call for that name returns the colour of the first call: after any run of further
  calls, for any names and indices, and with any index in the later call. A call never
  removes a key of the colour map and never changes the colour stored under a key, and so
  neither does a run of calls.
\<close>

theorem getCategoryColor_idempotent:
  "fst (getCategoryColor n j (calls cs (snd (getCategoryColor n i m)))) = fst (getCategoryColor n i m)
   \<and> (\<forall>k v n' i'. categoryColorsMap m k = Some v \<longrightarrow>
          categoryColorsMap (snd (getCategoryColor n' i' m)) k = Some v)
   \<and> (\<forall>k v. categoryColorsMap m k = Some v \<longrightarrow> categoryColorsMap (calls cs m) k = Some v)"
proof (intro conjI allI impI)
  let ?m1 = "snd (getCategoryColor n i m)"
  let ?c = "fst (getCategoryColor n i m)"
  have "categoryColorsMap ?m1 n = Some ?c" by (rule getCategoryColor_stores)
  then have "categoryColorsMap (calls cs ?m1) n = Some ?c" by (rule calls_keeps)
  then show "fst (getCategoryColor n j (calls cs ?m1)) = ?c"
    by (simp add: getCategoryColor_known)
next
  fix k v n' i'
  assume "categoryColorsMap m k = Some v"
  then show "categoryColorsMap (snd (getCategoryColor n' i' m)) k = Some v"
    by (rule getCategoryColor_keeps)
next
  fix k v
  assume "categoryColorsMap m k = Some v"
  then show "categoryColorsMap (calls cs m) k = Some v" by (rule calls_keeps)
qed

text \<open>
  Music gets the first palette colour at index 0 and keeps it when it is asked for again at
  index 7, after Sports and Chess (at index 12, beyond the palette) got theirs.
\<close>

theorem getCategoryColor_idempotent_witness:
  "categoryColorsMap (moduleStart demoDraws) ''Music'' = None
   \<and> fst (getCategoryColor ''Music'' 0 (moduleStart demoDraws)) = ''#FFD5D5''
   \<and> fst (getCategoryColor ''Music'' 7
          (calls [(''Sports'', 1), (''Chess'', 12)]
             (snd (getCategoryColor ''Music'' 0 (moduleStart demoDraws))))) = ''#FFD5D5''
   \<and> categoryColorsMap
          (calls [(''Sports'', 1), (''Chess'', 12)]
             (snd (getCategoryColor ''Music'' 0 (moduleStart demoDraws)))) ''Music''
       = Some ''#FFD5D5''"
proof -
  let ?m1 = "snd (getCategoryColor ''Music'' 0 (moduleStart demoDraws))"
  let ?cs = "[(''Sports'', 1), (''Chess'', 12)]"
  have unset: "categoryColorsMap (moduleStart demoDraws) ''Music'' = None"
    by (simp add: moduleStart_def)
  have first: "fst (getCategoryColor ''Music'' 0 (moduleStart demoDraws)) = ''#FFD5D5''"
    by (simp add: getCategoryColor_def moduleStart_def baseColors_def)
  have stored: "categoryColorsMap ?m1 ''Music'' = Some ''#FFD5D5''"
    by (simp add: getCategoryColor_def moduleStart_def baseColors_def)
  note idem = getCategoryColor_idempotent [of "''Music''" 7 ?cs 0 "moduleStart demoDraws"]
  from idem first have again: "fst (getCategoryColor ''Music'' 7 (calls ?cs ?m1)) = ''#FFD5D5''"
    by simp
  from getCategoryColor_idempotent [of "''Music''" 7 ?cs 0 ?m1] stored
  have kept: "categoryColorsMap (calls ?cs ?m1) ''Music'' = Some ''#FFD5D5''"
    by blast
  from unset first again kept show ?thesis by blast
qed

subsection \<open>Initialisation assigns the palette by rank\<close>

lemma initializeCategoryColors_calls:
  "initializeCategoryColors data m
   = calls (map (\<lambda>(index, hobby). (name hobby, index)) (enumerate 0 (sortByScore data))) m"
  by (simp add: initializeCategoryColors_def calls_def foldl_map case_prod_unfold)

lemma calls_enumerate_palette:
  assumes "distinct (map name xs)" and "k + length xs \<le> length baseColors"
    and "\<forall>h\<in>set xs. categoryColorsMap m (name h) = None"
  shows "\<forall>i<length xs.
           categoryColorsMap (calls (map (\<lambda>(index, hobby). (name hobby, index)) (enumerate k xs)) m)
             (name (xs ! i)) = Some (baseColors ! (k + i))"
  using assms
proof (induction xs arbitrary: k m)
  case Nil
  then show ?case by simp
next
  case (Cons x xs)
  let ?m1 = "snd (getCategoryColor (name x) k m)"
  let ?rest = "map (\<lambda>(index, hobby). (name hobby, index)) (enumerate (Suc k) xs)"
  from Cons.prems have unknown: "categoryColorsMap m (name x) = None" and k: "k < length baseColors"
    by simp_all
  have m1: "?m1 = m\<lparr>categoryColorsMap := (categoryColorsMap m)(name x \<mapsto> baseColors ! k)\<rparr>"
    using unknown k by (rule getCategoryColor_palette)
  have first: "categoryColorsMap (calls ?rest ?m1) (name x) = Some (baseColors ! k)"
    by (rule calls_keeps) (simp add: m1)
  have "\<forall>h\<in>set xs. categoryColorsMap ?m1 (name h) = None"
  proof
    fix h assume h: "h \<in> set xs"
    then have "name h \<in> set (map name xs)" by simp
    moreover from Cons.prems(1) have "name x \<notin> set (map name xs)" by simp
    ultimately have "name h \<noteq> name x" by metis
    with h Cons.prems(3) show "categoryColorsMap ?m1 (name h) = None" by (simp add: m1)
  qed
  with Cons.prems have later: "\<forall>i<length xs.
      categoryColorsMap (calls ?rest ?m1) (name (xs ! i)) = Some (baseColors ! (Suc k + i))"
    by (intro Cons.IH) simp_all
  show ?case
  proof (intro allI impI)
    fix i assume "i < length (x # xs)"
    then show "categoryColorsMap
          (calls (map (\<lambda>(index, hobby). (name hobby, index)) (enumerate k (x # xs))) m)
          (name ((x # xs) ! i)) = Some (baseColors ! (k + i))"
      using first later by (cases i) simp_all
  qed
qed

lemma distinct_names_sortByScore:
  "distinct (map name (sortByScore data)) = distinct (map name data)"
proof -
  have "map name (sortByScore data) = map name (array_sort byScore data)"
    by (simp add: sortByScore_map comp_def)
  then have "mset (map name (sortByScore data)) = image_mset name (mset (array_sort byScore data))"
    by simp
  then have "mset (map name (sortByScore data)) = mset (map name data)"
    by (simp add: mset_array_sort)
  then show ?thesis by (rule mset_eq_imp_distinct_iff)
qed

lemma highest_first:
  assumes "h \<in> set data" and "\<forall>h'\<in>set data. h' \<noteq> h \<longrightarrow> score h' < score h"
  shows "sortByScore data ! 0 = sortNode h"
proof -
  from assms(1) have len: "0 < length (sortByScore data)" by (cases data) auto
  then have "sortByScore data ! 0 \<in> set (sortByScore data)" by simp
  then obtain h0 where h0: "h0 \<in> set data" "sortByScore data ! 0 = sortNode h0"
    by (auto simp: set_sortByScore)
  from assms(1) have "sortNode h \<in> set (sortByScore data)" by (simp add: set_sortByScore)
  then obtain j where j: "j < length (sortByScore data)" "sortByScore data ! j = sortNode h"
    by (auto simp: in_set_conv_nth)
  have "score (sortByScore data ! j) \<le> score (sortByScore data ! 0)"
  proof (cases j)
    case 0
    then show ?thesis by simp
  next
    case (Suc j')
    with j(1) descending_sortByScore [of data] show ?thesis
      using sorted_wrt_nth_less [of "\<lambda>a b. score b \<le> score a" "sortByScore data" 0 "Suc j'"]
      by (simp add: descending_def)
  qed
  with h0 j have "score h \<le> score h0" by simp
  with assms(2) h0(1) have "h0 = h" by force
  with h0 show ?thesis by simp
qed

text \<open>
  Claim C2. For a forest of at most ten top-level categories with distinct names, after
  \<open>initializeCategoryColors\<close> has run on the empty colour map of process start, the
  category at rank \<open>i\<close> of the sorted top level has the colour \<open>baseColors[i]\<close>. In
  particular a category whose score is above every other category's has
  \<open>baseColors[0]\<close>.
\<close>

theorem initializeCategoryColors_palette_by_rank:
  assumes "length data \<le> length baseColors" and "distinct (map name data)"
  shows "(\<forall>i<length data.
            categoryColorsMap (initializeCategoryColors data (moduleStart rnd))
              (name (sortByScore data ! i)) = Some (baseColors ! i))
         \<and> (\<forall>h\<in>set data. (\<forall>h'\<in>set data. h' \<noteq> h \<longrightarrow> score h' < score h) \<longrightarrow>
              categoryColorsMap (initializeCategoryColors data (moduleStart rnd)) (name h)
                = Some (baseColors ! 0))"
proof -
  have ranks: "\<forall>i<length (sortByScore data).
      categoryColorsMap (initializeCategoryColors data (moduleStart rnd))
        (name (sortByScore data ! i)) = Some (baseColors ! (0 + i))"
    unfolding initializeCategoryColors_calls
    using assms by (intro calls_enumerate_palette) (simp_all add: distinct_names_sortByScore moduleStart_def)
  then have byRank: "\<forall>i<length data.
      categoryColorsMap (initializeCategoryColors data (moduleStart rnd))
        (name (sortByScore data ! i)) = Some (baseColors ! i)"
    by simp
  have top: "categoryColorsMap (initializeCategoryColors data (moduleStart rnd)) (name h)
                = Some (baseColors ! 0)"
    if "h \<in> set data" and "\<forall>h'\<in>set data. h' \<noteq> h \<longrightarrow> score h' < score h" for h
  proof -
    from that have "sortByScore data ! 0 = sortNode h" by (rule highest_first)
    moreover from that(1) have "0 < length data" by (cases data) auto
    ultimately show ?thesis using byRank by force
  qed
  from byRank top show ?thesis by blast
qed

text \<open>
  The forest \<open>tied\<close> lists Chess, Art, Go, Yoga with the scores 3, 9, 3, 9. Sorted, Art and
  Yoga come first: Art gets the first palette colour, Yoga the second, Chess the third and
  Go the fourth. In the scenario's forest Music has the one highest score and gets the
  first palette colour.
\<close>

lemma sortByScore_tied:
  "sortByScore tied =
     [Hobby ''Art'' (Some [Hobby ''Clay'' None 4, Hobby ''Oil'' None 1, Hobby ''Ink'' None 1]) 9,
      Hobby ''Yoga'' (Some []) 9,
      Hobby ''Chess'' None 3,
      Hobby ''Go'' None 3]"
  by (simp add: tied_def sortByScore.simps array_sort_def byScore_def)

theorem initializeCategoryColors_palette_by_rank_witness:
  "length tied \<le> length baseColors \<and> distinct (map name tied)
   \<and> categoryColorsMap (initializeCategoryColors tied (moduleStart demoDraws)) ''Art''
       = Some ''#FFD5D5''
   \<and> categoryColorsMap (initializeCategoryColors tied (moduleStart demoDraws)) ''Yoga''
       = Some ''#D5FFD5''
   \<and> categoryColorsMap (initializeCategoryColors tied (moduleStart demoDraws)) ''Chess''
       = Some ''#D5D5FF''
   \<and> categoryColorsMap (initializeCategoryColors tied (moduleStart demoDraws)) ''Go''
       = Some ''#FFD5FF''
   \<and> length demo \<le> length baseColors \<and> distinct (map name demo)
   \<and> categoryColorsMap (initializeCategoryColors demo (moduleStart demoDraws)) ''Music''
       = Some ''#FFD5D5''"
proof -
  have len: "length tied \<le> length baseColors" by (simp add: tied_def)
  have dist: "distinct (map name tied)" by (simp add: tied_def)
  have n: "length tied = 4" by (simp add: tied_def)
  note ranks = initializeCategoryColors_palette_by_rank [OF len dist, of demoDraws, THEN conjunct1]
  have "categoryColorsMap (initializeCategoryColors tied (moduleStart demoDraws))
          (name (sortByScore tied ! 0)) = Some (baseColors ! 0)"
    and "categoryColorsMap (initializeCategoryColors tied (moduleStart demoDraws))
          (name (sortByScore tied ! 1)) = Some (baseColors ! 1)"
    and "categoryColorsMap (initializeCategoryColors tied (moduleStart demoDraws))
          (name (sortByScore tied ! 2)) = Some (baseColors ! 2)"
    and "categoryColorsMap (initializeCategoryColors tied (moduleStart demoDraws))
          (name (sortByScore tied ! 3)) = Some (baseColors ! 3)"
    using ranks n by simp_all
  then have "categoryColorsMap (initializeCategoryColors tied (moduleStart demoDraws)) ''Art''
       = Some ''#FFD5D5''"
    and "categoryColorsMap (initializeCategoryColors tied (moduleStart demoDraws)) ''Yoga''
       = Some ''#D5FFD5''"
    and "categoryColorsMap (initializeCategoryColors tied (moduleStart demoDraws)) ''Chess''
       = Some ''#D5D5FF''"
    and "categoryColorsMap (initializeCategoryColors tied (moduleStart demoDraws)) ''Go''
       = Some ''#FFD5FF''"
    by (simp_all add: sortByScore_tied baseColors_def)
  note byRank = this
  have len': "length demo \<le> length baseColors" by (simp add: demo_def)
  have dist': "distinct (map name demo)" by (simp add: demo_def)
  let ?music = "Hobby ''Music'' (Some [Hobby ''Guitar'' None 5, Hobby ''Piano'' None 8]) 10"
  have top: "?music \<in> set demo" "\<forall>h'\<in>set demo. h' \<noteq> ?music \<longrightarrow> score h' < score ?music"
    by (simp_all add: demo_def)
  from initializeCategoryColors_palette_by_rank [OF len' dist', of demoDraws, THEN conjunct2] top
  have "categoryColorsMap (initializeCategoryColors demo (moduleStart demoDraws)) (name ?music)
          = Some (baseColors ! 0)"
    by blast
  then have "categoryColorsMap (initializeCategoryColors demo (moduleStart demoDraws)) ''Music''
       = Some ''#FFD5D5''"
    by (simp add: baseColors_def)
  with byRank len dist len' dist' show ?thesis by blast
qed

section \<open>Loading the selection at startup\<close>

text \<open>
  \<^verbatim>\<open>
  const [selectedHobbies, setSelectedHobbies] = React.useState<string[]>(() => {
    try {
      const saved = localStorage.getItem("selectedHobbies");
      return saved ? JSON.parse(saved) : [];
    } catch {
      return [];
    }
  });
  \<close>
  The browser's storage is either out of reach (reading it throws) or a map from keys to
  texts. \<open>JSON.parse\<close> is the platform's: it is a parameter, a function from a text to the
  value it denotes or to the syntax error it throws. What it returns is any JSON value; the
  type \<open>string[]\<close> of the state is not checked when the program runs.
\<close>

datatype js_error = SecurityError | SyntaxError

datatype json =
  JNull
  | JBool bool
  | JNumber int
  | JString string
  | JArray "json list"
  | JObject "(string \<times> json) list"

type_synonym local_storage = "(string \<rightharpoonup> string) option"

definition getItem :: "local_storage \<Rightarrow> string \<Rightarrow> js_error + string option" where
  "getItem localStorage key =
     (case localStorage of None \<Rightarrow> Inl SecurityError | Some entries \<Rightarrow> Inr (entries key))"

text \<open>
  The initializer: the body of \<open>try\<close>, in which a thrown error is \<open>Inl\<close>, and the
  \<open>catch\<close> that turns any error into the empty array. \<open>saved\<close> is falsy when it is
  \<open>null\<close> or the empty text.
\<close>

definition initialSelectedHobbies ::
  "(string \<Rightarrow> js_error + json) \<Rightarrow> local_storage \<Rightarrow> js_error + json" where
  "initialSelectedHobbies JSON_parse localStorage =
     (case (case getItem localStorage ''selectedHobbies'' of
              Inl e \<Rightarrow> Inl e
            | Inr saved \<Rightarrow>
                (case saved of
                   None \<Rightarrow> Inr (JArray [])
                 | Some s \<Rightarrow> if s = [] then Inr (JArray []) else JSON_parse s))
      of Inl e \<Rightarrow> Inr (JArray [])
       | Inr v \<Rightarrow> Inr v)"

text \<open>The selection a JSON value stands for, when it is an array of strings.\<close>

fun jsonString :: "json \<Rightarrow> string option" where
  "jsonString (JString s) = Some s"
| "jsonString _ = None"

fun asSelection :: "json \<Rightarrow> string list option" where
  "asSelection (JArray vs) =
     (if list_all (\<lambda>v. jsonString v \<noteq> None) vs then Some (map (\<lambda>v. the (jsonString v)) vs)
      else None)"
| "asSelection _ = None"

text \<open>
  \<open>JSON.parse\<close> on the texts of the examples below: the literal \<open>null\<close>, the empty array
  and an array of one name. It stands for the platform's parser on these texts only, and
  takes every other text for a syntax error.
\<close>

definition parseExample :: "string \<Rightarrow> js_error + json" where
  "parseExample s =
     (if s = ''null'' then Inr JNull
      else if s = ''[]'' then Inr (JArray [])
      else if s = ''[\"Piano\"]'' then Inr (JArray [JString ''Piano''])
      else Inl SyntaxError)"

text \<open>
  What the initializer returns, case by case. It never raises. Storage that cannot be read,
  an absent key, an empty text and a text that does not parse give the empty array. A text
  that parses gives the parsed value, whatever it is.
\<close>

lemma initialSelectedHobbies_cases:
  "(\<exists>v. initialSelectedHobbies JSON_parse localStorage = Inr v)
   \<and> initialSelectedHobbies JSON_parse None = Inr (JArray [])
   \<and> (entries ''selectedHobbies'' = None \<longrightarrow>
        initialSelectedHobbies JSON_parse (Some entries) = Inr (JArray []))
   \<and> (entries ''selectedHobbies'' = Some [] \<longrightarrow>
        initialSelectedHobbies JSON_parse (Some entries) = Inr (JArray []))
   \<and> (entries ''selectedHobbies'' = Some s \<and> JSON_parse s = Inl e \<longrightarrow>
        initialSelectedHobbies JSON_parse (Some entries) = Inr (JArray []))
   \<and> (entries ''selectedHobbies'' = Some s \<and> s \<noteq> [] \<and> JSON_parse s = Inr v \<longrightarrow>
        initialSelectedHobbies JSON_parse (Some entries) = Inr v)"
  by (auto simp: initialSelectedHobbies_def getItem_def split: sum.splits option.splits)

text \<open>
  Claim C9 holds for storage that is missing, unreadable or unparseable, and fails for a
  stored text that parses to something else than an array of names. With the text
  \<open>null\<close> under the key, the initializer returns \<open>null\<close>: not the empty array, and not a
  selection at all.
\<close>

theorem initialSelectedHobbies_keeps_parsed_null:
  "initialSelectedHobbies parseExample (Some [''selectedHobbies'' \<mapsto> ''null'']) = Inr JNull
   \<and> JNull \<noteq> JArray []
   \<and> asSelection JNull = None"
  by (simp add: initialSelectedHobbies_def getItem_def parseExample_def)

end
